theory Spec2Isabelle
  imports Main
begin

section \<open>Strings and the built-ins the program relies on\<close>

text \<open>
  The text of a frame is a \<^typ>\<open>string\<close>: a \<^typ>\<open>char\<close> stands for the Python character
  with the same code point, so frame text is covered up to code point 255. \<open>ord\<close> is
  Python's \<^verbatim>\<open>ord\<close>. A colour token is a list of code points (\<^typ>\<open>nat list\<close>), with no
  bound on them, since \<^verbatim>\<open>int\<close> reads characters far beyond that range as digits.
\<close>

definition ord :: "char \<Rightarrow> nat" where
  "ord c = of_char c"

text \<open>The only exception \<^verbatim>\<open>hex_to_rgb\<close> can raise on a string argument.\<close>

datatype error = ValueError

subsection \<open>\<^verbatim>\<open>int(s, 16)\<close>\<close>

text \<open>
  What \<^verbatim>\<open>int\<close> takes from the interpreter's Unicode database: the decimal digit value of
  a code point, if it has one, and whether a code point is white space. The database
  grows with the Unicode version, so it is a parameter of the model; \<open>unicode_14\<close> below
  is the one of Unicode 14.0.
\<close>

record unicode_db =
  decimal_value :: "nat \<Rightarrow> nat option"
  is_whitespace :: "nat \<Rightarrow> bool"

text \<open>
  \<^verbatim>\<open>int\<close> first turns a string with a character beyond ASCII into ASCII: a code point
  below 127 stays, white space becomes a blank, a decimal digit becomes the ASCII digit
  of its value, and at the first other character the text ends with a question mark.
\<close>

fun transform :: "unicode_db \<Rightarrow> nat list \<Rightarrow> string" where
  "transform db [] = []"
| "transform db (ch # rest) =
     (if ch < 127 then char_of ch # transform db rest
      else if is_whitespace db ch then CHR '' '' # transform db rest
      else (case decimal_value db ch of
              None \<Rightarrow> [CHR ''?'']
            | Some d \<Rightarrow> char_of (48 + d) # transform db rest))"

text \<open>
  The ASCII text is then read by the integer parser, which accepts more than hex digits:
  surrounding white space (tab to carriage return, and the blank), one sign, an optional
  \<^verbatim>\<open>0x\<close> prefix and single underscores between digits.
\<close>

definition is_space :: "char \<Rightarrow> bool" where
  "is_space c = (ord c \<in> {9, 10, 11, 12, 13, 32})"

definition py_strip :: "string \<Rightarrow> string" where
  "py_strip s = rev (dropWhile is_space (rev (dropWhile is_space s)))"

definition hex_digit :: "char \<Rightarrow> nat option" where
  "hex_digit c =
     (let n = ord c in
      if 48 \<le> n \<and> n \<le> 57 then Some (n - 48)
      else if 97 \<le> n \<and> n \<le> 102 then Some (n - 87)
      else if 65 \<le> n \<and> n \<le> 70 then Some (n - 55)
      else None)"

fun take_sign :: "string \<Rightarrow> bool \<times> string" where
  "take_sign [] = (False, [])"
| "take_sign (c # cs) =
     (if c = CHR ''-'' then (True, cs)
      else if c = CHR ''+'' then (False, cs)
      else (False, c # cs))"

fun skip_prefix16 :: "string \<Rightarrow> string" where
  "skip_prefix16 (c0 # cx # rest) =
     (if c0 = CHR ''0'' \<and> (cx = CHR ''x'' \<or> cx = CHR ''X'')
      then (case rest of
              [] \<Rightarrow> []
            | c # r \<Rightarrow> if c = CHR ''_'' then r else rest)
      else c0 # cx # rest)"
| "skip_prefix16 s = s"

text \<open>The digits after the first one: each is a hex digit, or an underscore followed by one.\<close>

fun digits16 :: "nat \<Rightarrow> string \<Rightarrow> nat option" where
  "digits16 acc [] = Some acc"
| "digits16 acc [c] =
     (case hex_digit c of None \<Rightarrow> None | Some d \<Rightarrow> Some (16 * acc + d))"
| "digits16 acc (c # c' # cs) =
     (if c = CHR ''_''
      then (case hex_digit c' of None \<Rightarrow> None | Some d \<Rightarrow> digits16 (16 * acc + d) cs)
      else (case hex_digit c of None \<Rightarrow> None | Some d \<Rightarrow> digits16 (16 * acc + d) (c' # cs)))"

definition long_from_string :: "string \<Rightarrow> error + int" where
  "long_from_string s =
     (case take_sign (py_strip s) of (neg, u) \<Rightarrow>
        (case skip_prefix16 u of
           [] \<Rightarrow> Inl ValueError
         | c # cs \<Rightarrow>
             (case hex_digit c of
                None \<Rightarrow> Inl ValueError
              | Some d \<Rightarrow>
                  (case digits16 d cs of
                     None \<Rightarrow> Inl ValueError
                   | Some n \<Rightarrow> Inr (if neg then - int n else int n)))))"

text \<open>\<^verbatim>\<open>int(s, 16)\<close>: an ASCII string is parsed as it is, any other one after the transformation.\<close>

definition py_int16 :: "unicode_db \<Rightarrow> nat list \<Rightarrow> error + int" where
  "py_int16 db s =
     (if list_all (\<lambda>ch. ch < 128) s then long_from_string (map char_of s)
      else long_from_string (transform db s))"

text \<open>Python's slice \<^verbatim>\<open>s[a:b]\<close> for \<open>0 \<le> a \<le> b\<close>; it never raises, it clips.\<close>

definition slice :: "nat \<Rightarrow> nat \<Rightarrow> 'a list \<Rightarrow> 'a list" where
  "slice a b s = take (b - a) (drop a s)"

subsection \<open>\<^verbatim>\<open>round\<close> of a quotient\<close>

text \<open>
  \<^verbatim>\<open>round(x)\<close> rounds a float to the nearest integer, ties to the even one.
  \<open>py_round_div a b\<close> is that rounding of the exact quotient \<open>a / b\<close> for \<open>b > 0\<close>. The
  program computes the quotient in double precision; for the channel values that can
  occur the exact quotients \<open>(r - 8) * 24 / 247\<close> and \<open>r * 5 / 255\<close> are never within
  \<open>1 / 510\<close> of a tie (the denominators are odd), so the float and the exact quotient
  round to the same integer.
\<close>

definition py_round_div :: "int \<Rightarrow> int \<Rightarrow> int" where
  "py_round_div a b =
     (let q = a div b; m = a mod b in
      if 2 * m < b then q
      else if 2 * m > b then q + 1
      else if even q then q else q + 1)"

section \<open>ColorConverter\<close>

text \<open>
  \<^verbatim>\<open>hex_to_rgb\<close>: \<^verbatim>\<open>lstrip('#')\<close> removes every leading \<^verbatim>\<open>#\<close> (code point 35); a string
  of length 3 has each character doubled; the three channels are read from the slices
  \<^verbatim>\<open>[0:2]\<close>, \<^verbatim>\<open>[2:4]\<close>, \<^verbatim>\<open>[4:6]\<close> with \<^verbatim>\<open>int(_, 16)\<close>, in that order.
\<close>

definition hex_to_rgb :: "unicode_db \<Rightarrow> nat list \<Rightarrow> error + (int \<times> int \<times> int)" where
  "hex_to_rgb db hex_color =
     (let h = dropWhile (\<lambda>c. c = 35) hex_color;
          h2 = (if length h = 3 then concat (map (\<lambda>ch. [ch, ch]) h) else h)
      in case py_int16 db (slice 0 2 h2) of
           Inl e \<Rightarrow> Inl e
         | Inr r \<Rightarrow>
             (case py_int16 db (slice 2 4 h2) of
                Inl e \<Rightarrow> Inl e
              | Inr g \<Rightarrow>
                  (case py_int16 db (slice 4 6 h2) of
                     Inl e \<Rightarrow> Inl e
                   | Inr b \<Rightarrow> Inr (r, g, b))))"

definition rgb_to_ansi256 :: "int \<Rightarrow> int \<Rightarrow> int \<Rightarrow> int" where
  "rgb_to_ansi256 r g b =
     (if r = g \<and> g = b then
        (if r < 8 then 16
         else if r > 248 then 231
         else 232 + py_round_div ((r - 8) * 24) 247)
      else
        (let ri = py_round_div (r * 5) 255;
             gi = py_round_div (g * 5) 255;
             bi = py_round_div (b * 5) 255
         in 16 + 36 * ri + 6 * gi + bi))"

subsection \<open>The specification's reading of a colour token\<close>

text \<open>
  These predicates follow the specification's words, not the code. A hex digit is one of
  \<^verbatim>\<open>0-9\<close>, \<^verbatim>\<open>a-f\<close>, \<^verbatim>\<open>A-F\<close>; a token is valid when, after one optional leading \<^verbatim>\<open>#\<close>
  is removed, it has 3 or 6 characters that are all hex digits. \<open>lstrip_hash\<close> names
  what the code's \<^verbatim>\<open>lstrip('#')\<close> leaves. Beyond ASCII a character is a \<open>wide_digit\<close>
  when the Unicode database gives it a decimal digit value and a \<open>wide_space\<close> when it
  is white space there; a character is \<open>plain\<close> when it is a hex digit, a wide digit, a
  sign, ASCII white space or wide white space.
\<close>

definition is_hex :: "char \<Rightarrow> bool" where
  "is_hex c = (hex_digit c \<noteq> None)"

definition hex_cp :: "nat \<Rightarrow> bool" where
  "hex_cp c = (c < 128 \<and> is_hex (char_of c))"

definition strip_one_hash :: "nat list \<Rightarrow> nat list" where
  "strip_one_hash t = (case t of [] \<Rightarrow> [] | c # cs \<Rightarrow> if c = 35 then cs else t)"

definition valid_hex_token :: "nat list \<Rightarrow> bool" where
  "valid_hex_token t =
     (let h = strip_one_hash t in (length h = 3 \<or> length h = 6) \<and> list_all hex_cp h)"

definition lstrip_hash :: "nat list \<Rightarrow> nat list" where
  "lstrip_hash t = dropWhile (\<lambda>c. c = 35) t"

definition wide_digit :: "unicode_db \<Rightarrow> nat \<Rightarrow> bool" where
  "wide_digit db c = (127 \<le> c \<and> decimal_value db c \<noteq> None)"

definition wide_space :: "unicode_db \<Rightarrow> nat \<Rightarrow> bool" where
  "wide_space db c = (127 \<le> c \<and> is_whitespace db c)"

definition plain_char :: "char \<Rightarrow> bool" where
  "plain_char c = (is_hex c \<or> is_space c \<or> c = CHR ''+'' \<or> c = CHR ''-'')"

definition plain :: "unicode_db \<Rightarrow> nat \<Rightarrow> bool" where
  "plain db c =
     (hex_cp c \<or> wide_digit db c \<or> c = 43 \<or> c = 45
      \<or> c \<in> {9, 10, 11, 12, 13, 32} \<or> wide_space db c)"

text \<open>
  The decimal digits and the white space of Unicode 14.0: every run of ten digits is
  given by the code point of its zero.
\<close>

definition digit_zeros :: "nat list" where
  "digit_zeros =
     [48, 1632, 1776, 1984, 2406, 2534, 2662, 2790, 2918, 3046, 3174, 3302, 3430, 3558,
      3664, 3792, 3872, 4160, 4240, 6112, 6160, 6470, 6608, 6784, 6800, 6992, 7088, 7232,
      7248, 42528, 43216, 43264, 43472, 43504, 43600, 44016, 65296, 66720, 68912, 69734,
      69872, 69942, 70096, 70384, 70736, 70864, 71248, 71360, 71472, 71904, 72016, 72784,
      73040, 73120, 92768, 92864, 93008, 120782, 120792, 120802, 120812, 120822, 123200,
      123632, 125264, 130032]"

definition unicode_14 :: unicode_db where
  "unicode_14 =
     \<lparr>decimal_value =
        (\<lambda>c. case filter (\<lambda>z. z \<le> c \<and> c < z + 10) digit_zeros of
               [] \<Rightarrow> None
             | z # _ \<Rightarrow> Some (c - z)),
      is_whitespace =
        (\<lambda>c. c \<in> {9, 10, 11, 12, 13, 28, 29, 30, 31, 32, 133, 160, 5760, 8192, 8193, 8194,
                    8195, 8196, 8197, 8198, 8199, 8200, 8201, 8202, 8232, 8233, 8239, 8287,
                    12288})\<rparr>"

text \<open>A token as the code points of its characters.\<close>

definition token :: "string \<Rightarrow> nat list" where
  "token s = map ord s"

section \<open>FrameRenderer\<close>

subsection \<open>Text helpers\<close>

definition ESC :: char where
  "ESC = CHR 0x1B"

definition NL :: char where
  "NL = CHR 0x0A"

text \<open>\<^verbatim>\<open>s.rstrip('\n')\<close> removes every trailing newline.\<close>

definition rstrip_nl :: "string \<Rightarrow> string" where
  "rstrip_nl s = rev (dropWhile (\<lambda>c. c = NL) (rev s))"

text \<open>\<^verbatim>\<open>sep.join(xs)\<close>.\<close>

fun join :: "string \<Rightarrow> string list \<Rightarrow> string" where
  "join sep [] = []"
| "join sep [x] = x"
| "join sep (x # y # ys) = x @ sep @ join sep (y # ys)"

text \<open>
  \<^verbatim>\<open>str.splitlines()\<close>: a line ends at LF, CR, CR LF, VT, FF, FS, GS, RS or NEL; the
  line ends are dropped, and no empty last line is produced after a final line end.
\<close>

definition is_linebreak :: "char \<Rightarrow> bool" where
  "is_linebreak c = (ord c \<in> {10, 11, 12, 13, 28, 29, 30, 133})"

fun split_acc :: "string \<Rightarrow> string \<Rightarrow> string list" where
  "split_acc cur [] = (if cur = [] then [] else [cur])"
| "split_acc cur (c # cs) =
     (if ord c = 13 then
        (case cs of
           [] \<Rightarrow> [cur]
         | c' # cs' \<Rightarrow> if c' = NL then cur # split_acc [] cs' else cur # split_acc [] cs)
      else if is_linebreak c then cur # split_acc [] cs
      else split_acc (cur @ [c]) cs)"

definition splitlines :: "string \<Rightarrow> string list" where
  "splitlines s = split_acc [] s"

text \<open>\<^verbatim>\<open>str(n)\<close> for an integer, as a format string inserts it.\<close>

fun show_nat :: "nat \<Rightarrow> string" where
  "show_nat n =
     (if n < 10 then [char_of (48 + n)]
      else show_nat (n div 10) @ [char_of (48 + n mod 10)])"

declare show_nat.simps [simp del]

definition show_int :: "int \<Rightarrow> string" where
  "show_int i = (if i < 0 then CHR ''-'' # show_nat (nat (- i)) else show_nat (nat i))"

text \<open>\<^verbatim>\<open>t.encode('utf-8')\<close> on code points below 256.\<close>

definition utf8_char :: "char \<Rightarrow> string" where
  "utf8_char c =
     (let n = ord c in
      if n < 128 then [c] else [char_of (192 + n div 64), char_of (128 + n mod 64)])"

definition encode_utf8 :: "string \<Rightarrow> string" where
  "encode_utf8 s = concat (map utf8_char s)"

subsection \<open>Frames\<close>

text \<open>
  A frame is a JSON object. The model keeps the keys the renderer reads:
  \<^verbatim>\<open>contentString\<close>, \<^verbatim>\<open>content\<close> (a list of lines) and the colour map. \<open>color_map\<close> is the
  dictionary that \<^verbatim>\<open>render_frame_with_colors\<close> builds from \<^verbatim>\<open>colors.foreground\<close>, keyed
  by (row, col); a key with a negative index is never looked up, and a value that is no
  string is rendered like a missing one (it is falsy, or \<^verbatim>\<open>hex_to_rgb\<close> raises on it and
  the exception is caught), so the map holds tokens (the code points of a string) at natural indices. The empty
  object has no key at all; \<^verbatim>\<open>frame_to_text\<close> returns the empty string for it on both of
  its paths.
\<close>

record frame =
  contentString :: "string option"
  content :: "string list option"
  color_map :: "nat \<times> nat \<Rightarrow> nat list option"

definition frame_to_text :: "frame \<Rightarrow> string" where
  "frame_to_text f =
     (case contentString f of
        Some s \<Rightarrow>
          if s \<noteq> [] then rstrip_nl s
          else (case content f of Some ls \<Rightarrow> join [NL] (map rstrip_nl ls) | None \<Rightarrow> [])
      | None \<Rightarrow> (case content f of Some ls \<Rightarrow> join [NL] (map rstrip_nl ls) | None \<Rightarrow> []))"

subsection \<open>Rendering one row\<close>

definition reset :: string where
  "reset = ESC # ''[0m''"

definition sgr_truecolor :: "int \<Rightarrow> int \<Rightarrow> int \<Rightarrow> string" where
  "sgr_truecolor r g b =
     ESC # ''[38;2;'' @ show_int r @ '';'' @ show_int g @ '';'' @ show_int b @ ''m''"

definition sgr_256 :: "int \<Rightarrow> string" where
  "sgr_256 code = ESC # ''[38;5;'' @ show_int code @ ''m''"

text \<open>
  The value of \<^verbatim>\<open>prev_color\<close>: \<^verbatim>\<open>None\<close> at the start of a row; in truecolor mode the
  tuple \<^verbatim>\<open>(r, g, b)\<close>, which is \<^verbatim>\<open>(None, None, None)\<close> for a cell without colour
  (\<open>Tuple None\<close>); in 256 mode the palette index, or \<^verbatim>\<open>None\<close> again.
\<close>

datatype prev_color = PyNone | Tuple "(int \<times> int \<times> int) option" | Code int

text \<open>
  The colour of a cell: the token of the map, if there is one and it is not empty, parsed
  by \<^verbatim>\<open>hex_to_rgb\<close>; any exception leaves the cell without colour.
\<close>

definition cell_rgb ::
  "unicode_db \<Rightarrow> (nat \<times> nat \<Rightarrow> nat list option) \<Rightarrow> nat \<Rightarrow> nat
     \<Rightarrow> (int \<times> int \<times> int) option" where
  "cell_rgb db cm row_idx col_idx =
     (case cm (row_idx, col_idx) of
        None \<Rightarrow> None
      | Some color \<Rightarrow>
          if color \<noteq> [] then
            (case hex_to_rgb db color of Inl e \<Rightarrow> None | Inr rgb \<Rightarrow> Some rgb)
          else None)"

text \<open>One turn of the loop over the columns: \<open>out\<close> is the list of pieces appended so far.\<close>

definition cell_step ::
  "string \<Rightarrow> unicode_db \<Rightarrow> (nat \<times> nat \<Rightarrow> nat list option) \<Rightarrow> nat \<Rightarrow> nat \<Rightarrow> char
     \<Rightarrow> string list \<times> prev_color \<Rightarrow> string list \<times> prev_color" where
  "cell_step color_mode db cm row_idx col_idx ch st =
     (case st of (out, prev) \<Rightarrow>
        (let rgb = cell_rgb db cm row_idx col_idx in
         if color_mode = ''truecolor'' then
           (if Tuple rgb \<noteq> prev then
              (let out1 = (if prev \<noteq> PyNone then out @ [reset] else out);
                   out2 = (case rgb of
                             Some (r, g, b) \<Rightarrow> out1 @ [sgr_truecolor r g b]
                           | None \<Rightarrow> out1)
               in (out2 @ [[ch]], Tuple rgb))
            else (out @ [[ch]], prev))
         else if color_mode = ''256'' then
           (let code = (case rgb of
                          Some (r, g, b) \<Rightarrow> Code (rgb_to_ansi256 r g b)
                        | None \<Rightarrow> PyNone)
            in if code \<noteq> prev then
                 (let out1 = (if prev \<noteq> PyNone then out @ [reset] else out);
                      out2 = (case code of Code c \<Rightarrow> out1 @ [sgr_256 c] | _ \<Rightarrow> out1)
                  in (out2 @ [[ch]], code))
               else (out @ [[ch]], prev))
         else (out @ [[ch]], prev)))"

fun row_loop ::
  "string \<Rightarrow> unicode_db \<Rightarrow> (nat \<times> nat \<Rightarrow> nat list option) \<Rightarrow> nat \<Rightarrow> nat \<Rightarrow> string
     \<Rightarrow> string list \<times> prev_color \<Rightarrow> string list \<times> prev_color" where
  "row_loop color_mode db cm row_idx col_idx [] st = st"
| "row_loop color_mode db cm row_idx col_idx (ch # rest) st =
     row_loop color_mode db cm row_idx (Suc col_idx) rest
       (cell_step color_mode db cm row_idx col_idx ch st)"

text \<open>The list \<open>out\<close> of a row when the row is finished, with the closing reset.\<close>

definition row_out ::
  "string \<Rightarrow> unicode_db \<Rightarrow> (nat \<times> nat \<Rightarrow> nat list option) \<Rightarrow> nat \<Rightarrow> string
     \<Rightarrow> string list" where
  "row_out color_mode db cm row_idx line =
     (case row_loop color_mode db cm row_idx 0 line ([], PyNone) of
        (out, prev) \<Rightarrow> if prev \<noteq> PyNone then out @ [reset] else out)"

subsection \<open>Rendering a frame\<close>

text \<open>\<^verbatim>\<open>if width and len(line) < width: line = line + ' ' * (width - len(line))\<close>\<close>

definition pad :: "int \<Rightarrow> string \<Rightarrow> string" where
  "pad width line =
     (if width \<noteq> 0 \<and> int (length line) < width
      then line @ replicate (nat (width - int (length line))) CHR '' ''
      else line)"

text \<open>The width in use: the one given, else the longest line (0 when there is no line).\<close>

definition resolve_width :: "int option \<Rightarrow> string list \<Rightarrow> int" where
  "resolve_width width lines =
     (case width of
        None \<Rightarrow> int (foldr max (map length lines) 0)
      | Some w \<Rightarrow> w)"

definition padded_lines :: "frame \<Rightarrow> int option \<Rightarrow> string list" where
  "padded_lines f width =
     (let lines = splitlines (frame_to_text f)
      in map (pad (resolve_width width lines)) lines)"

definition out_rows ::
  "unicode_db \<Rightarrow> frame \<Rightarrow> int option \<Rightarrow> string \<Rightarrow> string list list" where
  "out_rows db f width color_mode =
     (let lines = padded_lines f width
      in map (\<lambda>row_idx. row_out color_mode db (color_map f) row_idx (lines ! row_idx))
           [0..<length lines])"

definition render_frame_with_colors ::
  "unicode_db \<Rightarrow> frame \<Rightarrow> int option \<Rightarrow> string \<Rightarrow> string" where
  "render_frame_with_colors db f width color_mode =
     join [NL] (map concat (out_rows db f width color_mode))"

section \<open>TerminalController\<close>

text \<open>
  What the program does to the terminal is a list of events in program order: a write to
  \<^verbatim>\<open>sys.stdout\<close>, a flush of it, a \<^verbatim>\<open>print\<close>, or an \<^verbatim>\<open>os.write\<close> to the file
  descriptor, which is how frames are written.
\<close>

datatype event = StdoutWrite string | Flush | Print string | OsWrite string

definition hide_cursor :: "event list" where
  "hide_cursor = [StdoutWrite (ESC # ''[?25l'')]"

definition show_cursor :: "event list" where
  "show_cursor = [StdoutWrite (ESC # ''[?25h''), Flush]"

definition clear_screen :: "event list" where
  "clear_screen = [StdoutWrite (ESC # ''[2J'' @ ESC # ''[H'')]"

definition move_cursor_home :: "event list" where
  "move_cursor_home = [StdoutWrite (ESC # ''[H'')]"

definition enable_alternate_buffer :: "event list" where
  "enable_alternate_buffer = [StdoutWrite (ESC # ''[?1049h'')]"

definition disable_alternate_buffer :: "event list" where
  "disable_alternate_buffer = [StdoutWrite (ESC # ''[?1049l'')]"

section \<open>PlaybackScheduler\<close>

text \<open>
  The keyword arguments of \<^verbatim>\<open>play_animation\<close> that decide what is written, and the two
  answers of the capability check (\<^verbatim>\<open>supports_truecolor()\<close>, \<^verbatim>\<open>supports_256color()\<close>),
  which read the environment. \<^verbatim>\<open>fps\<close> and the frames' durations only set how long the
  wait after a frame lasts; they are not part of the model, in which every wait ends
  unless a signal arrives.
\<close>

record play_args =
  loop :: bool
  canvas_width :: "int option"
  enable_color :: bool
  forced_color_mode :: "string option"
  prefer_flicker :: bool

record capabilities =
  supports_truecolor :: bool
  supports_256color :: bool

definition choose_color_mode :: "play_args \<Rightarrow> capabilities \<Rightarrow> string" where
  "choose_color_mode args env =
     (if enable_color args then
        (case forced_color_mode args of
           Some m \<Rightarrow>
             if m = ''truecolor'' \<or> m = ''256'' then m
             else if supports_truecolor env then ''truecolor''
             else if supports_256color env then ''256''
             else ''none''
         | None \<Rightarrow>
             if supports_truecolor env then ''truecolor''
             else if supports_256color env then ''256''
             else ''none'')
      else ''none'')"

text \<open>The list \<^verbatim>\<open>texts\<close>, and \<^verbatim>\<open>encoded_frames\<close>.\<close>

definition frame_texts ::
  "unicode_db \<Rightarrow> play_args \<Rightarrow> capabilities \<Rightarrow> frame list \<Rightarrow> string list" where
  "frame_texts db args env frames =
     (let color_mode = choose_color_mode args env in
      if color_mode \<noteq> ''none''
      then map (\<lambda>f. render_frame_with_colors db f (canvas_width args) color_mode) frames
      else map frame_to_text frames)"

definition encoded_frames ::
  "unicode_db \<Rightarrow> play_args \<Rightarrow> capabilities \<Rightarrow> frame list \<Rightarrow> string list" where
  "encoded_frames db args env frames = map encode_utf8 (frame_texts db args env frames)"

text \<open>
  Signals. SIGINT raises \<^verbatim>\<open>KeyboardInterrupt\<close> where the program stands; for SIGTERM
  \<^verbatim>\<open>main\<close> installs \<^verbatim>\<open>_term_handler\<close>, which shows the cursor and calls
  \<^verbatim>\<open>sys.exit(0)\<close>, so \<^verbatim>\<open>SystemExit\<close> is raised there. A cancellation \<open>(sig, k)\<close> is the
  signal \<open>sig\<close> arriving inside the loop when \<open>k\<close> frames have been written: before the
  first write for \<open>k = 0\<close>, else during the wait that follows the \<open>k\<close>-th write.
\<close>

datatype signal = SIGINT | SIGTERM

datatype exn = KeyboardInterrupt | SystemExit int

datatype outcome = Returned | Raised exn

fun deliver :: "signal \<Rightarrow> event list \<times> exn" where
  "deliver SIGINT = ([], KeyboardInterrupt)"
| "deliver SIGTERM = (show_cursor, SystemExit 0)"

definition arrives :: "(signal \<times> nat) option \<Rightarrow> nat \<Rightarrow> signal option" where
  "arrives cancel written =
     (case cancel of
        None \<Rightarrow> None
      | Some (sig, k) \<Rightarrow> if k = written then Some sig else None)"

text \<open>The bytes of one frame write: clear and home when flicker is preferred, else home.\<close>

definition frame_bytes :: "bool \<Rightarrow> string \<Rightarrow> string" where
  "frame_bytes flicker encoded =
     (if flicker then ESC # ''[2J'' @ ESC # ''[H'' @ encoded else ESC # ''[H'' @ encoded)"

text \<open>
  The \<^verbatim>\<open>while True\<close> loop from the frame write on. It ends with the trace and the signal
  that ended it, if one did; with \<^verbatim>\<open>loop\<close> set and no signal it never ends, which is
  the value \<open>None\<close>. The index stays below the number of frames, which is not zero.
\<close>

partial_function (option) main_loop ::
  "bool \<Rightarrow> bool \<Rightarrow> string list \<Rightarrow> (signal \<times> nat) option \<Rightarrow> nat \<Rightarrow> nat \<Rightarrow> event list
     \<Rightarrow> (event list \<times> signal option) option" where
  "main_loop lp flicker enc cancel written idx tr =
     (let tr' = tr @ [OsWrite (frame_bytes flicker (enc ! idx))];
          written' = Suc written
      in case arrives cancel written' of
           Some sig \<Rightarrow> Some (tr', Some sig)
         | None \<Rightarrow>
             (let idx' = Suc idx in
              if idx' \<ge> length enc then
                (if lp then main_loop lp flicker enc cancel written' 0 tr'
                 else Some (tr', None))
              else main_loop lp flicker enc cancel written' idx' tr'))"

text \<open>
  What follows the loop: the handler's writes if a signal ended it, then the
  \<^verbatim>\<open>finally\<close> clause. \<^verbatim>\<open>KeyboardInterrupt\<close> is caught and the function returns; any other
  exception leaves the function after the \<^verbatim>\<open>finally\<close> clause.
\<close>

definition finish :: "event list \<times> signal option \<Rightarrow> event list \<times> outcome" where
  "finish r =
     (case r of
        (tr, None) \<Rightarrow> (tr @ show_cursor @ disable_alternate_buffer, Returned)
      | (tr, Some sig) \<Rightarrow>
          (case deliver sig of
             (handler, KeyboardInterrupt) \<Rightarrow>
               (tr @ handler @ show_cursor @ disable_alternate_buffer, Returned)
           | (handler, ex) \<Rightarrow>
               (tr @ handler @ show_cursor @ disable_alternate_buffer, Raised ex)))"

definition play_animation ::
  "unicode_db \<Rightarrow> play_args \<Rightarrow> capabilities \<Rightarrow> frame list \<Rightarrow> (signal \<times> nat) option
     \<Rightarrow> (event list \<times> outcome) option" where
  "play_animation db args env frames cancel =
     (if frames = [] then Some ([Print ''No frames found in animation.''], Returned)
      else
        (let enc = encoded_frames db args env frames;
             tr = hide_cursor
                  @ (if \<not> prefer_flicker args then enable_alternate_buffer @ clear_screen else [])
         in case arrives cancel 0 of
              Some sig \<Rightarrow> Some (finish (tr, Some sig))
            | None \<Rightarrow>
                map_option finish
                  (main_loop (loop args) (prefer_flicker args) enc cancel 0 0 tr)))"

section \<open>Notions and sample inputs used in the statements\<close>

text \<open>
  The colour-set escape a cell of colour \<open>(r, g, b)\<close> gets in a colour mode, and the
  test for a piece of \<open>out\<close> being a colour-set escape.
\<close>

definition color_set :: "string \<Rightarrow> int \<Rightarrow> int \<Rightarrow> int \<Rightarrow> string" where
  "color_set color_mode r g b =
     (if color_mode = ''truecolor'' then sgr_truecolor r g b else sgr_256 (rgb_to_ansi256 r g b))"

definition is_color_set :: "string \<Rightarrow> bool" where
  "is_color_set piece = (take 4 piece = ESC # ''[38'')"

text \<open>The frame of the specification's scenario: one line, the first cell red.\<close>

definition scenario_frame :: frame where
  "scenario_frame =
     \<lparr>contentString = None, content = Some [''AB''], color_map = [(0, 0) \<mapsto> token ''#ff0000'']\<rparr>"

text \<open>A row whose three cells (the padding included) are red, written in three ways.\<close>

definition red_row :: frame where
  "red_row =
     \<lparr>contentString = None, content = Some [''AB''],
      color_map = [(0, 0) \<mapsto> token ''#ff0000'', (0, 1) \<mapsto> token ''f00'', (0, 2) \<mapsto> token ''FF0000'']\<rparr>"

text \<open>Two lines of different length and no colour.\<close>

definition plain_frame :: frame where
  "plain_frame =
     \<lparr>contentString = None, content = Some [''A'', ''BCD''], color_map = Map.empty\<rparr>"

text \<open>The scenario's frame with a second token that does not parse.\<close>

definition bad_token_frame :: frame where
  "bad_token_frame =
     \<lparr>contentString = None, content = Some [''AB''],
      color_map = [(0, 0) \<mapsto> token ''#ff0000'', (0, 1) \<mapsto> token ''#12'']\<rparr>"

definition no_color_args :: play_args where
  "no_color_args =
     \<lparr>loop = False, canvas_width = Some 3, enable_color = False,
      forced_color_mode = None, prefer_flicker = False\<rparr>"

text \<open>
  What a session writes before the loop, one frame write, and what is read off a trace:
  how often the cursor-show and the alternate-buffer-exit sequences were written, the
  frame writes in order, and whether the trace ends with the restoration.
\<close>

definition setup_writes :: "play_args \<Rightarrow> event list" where
  "setup_writes args =
     hide_cursor @ (if \<not> prefer_flicker args then enable_alternate_buffer @ clear_screen else [])"

definition frame_write :: "bool \<Rightarrow> string list \<Rightarrow> nat \<Rightarrow> event" where
  "frame_write flicker enc i = OsWrite (frame_bytes flicker (enc ! i))"

definition cursor_shows :: "event list \<Rightarrow> nat" where
  "cursor_shows tr = count_list tr (StdoutWrite (ESC # ''[?25h''))"

definition alt_exits :: "event list \<Rightarrow> nat" where
  "alt_exits tr = count_list tr (StdoutWrite (ESC # ''[?1049l''))"

definition frame_writes :: "event list \<Rightarrow> string list" where
  "frame_writes tr = concat (map (\<lambda>e. case e of OsWrite b \<Rightarrow> [b] | _ \<Rightarrow> []) tr)"

definition restored_last :: "event list \<Rightarrow> bool" where
  "restored_last tr = (drop (length tr - 3) tr = show_cursor @ disable_alternate_buffer)"

text \<open>A terminal without colour support, arguments for a looping session, three frames.\<close>

definition plain_terminal :: capabilities where
  "plain_terminal = \<lparr>supports_truecolor = False, supports_256color = False\<rparr>"

definition looping_args :: play_args where
  "looping_args =
     \<lparr>loop = True, canvas_width = None, enable_color = True,
      forced_color_mode = None, prefer_flicker = True\<rparr>"

definition three_frames :: "frame list" where
  "three_frames = [plain_frame, scenario_frame, red_row]"

section \<open>Properties of the colour conversion\<close>

subsection \<open>Rounding\<close>

lemma py_round_div_mono:
  assumes "0 < b" "a \<le> a'"
  shows "py_round_div a b \<le> py_round_div a' b"
proof -
  have q: "a div b \<le> a' div b" using assms by (simp add: zdiv_mono1)
  show ?thesis
  proof (cases "a div b = a' div b")
    case True
    have "a = b * (a div b) + a mod b" "a' = b * (a' div b) + a' mod b" by simp_all
    with True assms have "a mod b \<le> a' mod b" by (metis add_le_cancel_left)
    with True show ?thesis by (auto simp: py_round_div_def Let_def)
  next
    case False
    with q have "a div b + 1 \<le> a' div b" by simp
    then show ?thesis by (auto simp: py_round_div_def Let_def)
  qed
qed

lemma gray_ends: "py_round_div 0 247 = 0" "py_round_div 5760 247 = 23"
  by (simp_all add: py_round_div_def)

lemma cube_ends: "py_round_div 0 255 = 0" "py_round_div 1275 255 = 5"
  by (simp_all add: py_round_div_def)

lemma cube_level:
  assumes "0 \<le> r" "r \<le> 255"
  shows "0 \<le> py_round_div (r * 5) 255 \<and> py_round_div (r * 5) 255 \<le> 5"
  using py_round_div_mono[of 255 0 "r * 5"] py_round_div_mono[of 255 "r * 5" 1275] assms
  by (simp add: cube_ends)

lemma gray_level:
  assumes "8 \<le> r" "r \<le> 248"
  shows "0 \<le> py_round_div ((r - 8) * 24) 247 \<and> py_round_div ((r - 8) * 24) 247 \<le> 23"
  using py_round_div_mono[of 247 0 "(r - 8) * 24"] py_round_div_mono[of 247 "(r - 8) * 24" 5760] assms
  by (simp add: gray_ends)

subsection \<open>The palette index\<close>

text \<open>
  C10: for all channels in 0..255, \<open>rgb_to_ansi256\<close> returns an index in 16..255: the colour
  cube (16..231) or the grey ramp (232..255), never one of the 16 basic colours.
\<close>

theorem rgb_to_ansi256_range:
  assumes "0 \<le> r" "r \<le> 255" "0 \<le> g" "g \<le> 255" "0 \<le> b" "b \<le> 255"
  shows "16 \<le> rgb_to_ansi256 r g b \<and> rgb_to_ansi256 r g b \<le> 255"
proof (cases "r = g \<and> g = b")
  case True
  then show ?thesis using gray_level[of r] by (auto simp: rgb_to_ansi256_def)
next
  case False
  then show ?thesis
    using cube_level[of r] cube_level[of g] cube_level[of b] assms
    by (auto simp: rgb_to_ansi256_def Let_def)
qed

theorem rgb_to_ansi256_range_witness:
  "(0::int) \<le> 255 \<and> (0::int) \<le> 128 \<and> (128::int) \<le> 255 \<and> (0::int) \<le> 0
   \<and> 16 \<le> rgb_to_ansi256 255 128 0 \<and> rgb_to_ansi256 255 128 0 \<le> 255"
  using rgb_to_ansi256_range[of 255 128 0] by simp

text \<open>
  C3, as the code has it: on the grey branch the index does not fall as long as the
  channel stays at or below 248; above 248 the result is 231, the white corner of the
  colour cube, which lies below every ramp index; black gives 16 and white gives 231.
\<close>

theorem gray_ramp_monotone_up_to_248:
  "(0 \<le> r1 \<and> r1 \<le> r2 \<and> r2 \<le> 248 \<longrightarrow> rgb_to_ansi256 r1 r1 r1 \<le> rgb_to_ansi256 r2 r2 r2)
   \<and> (248 < r \<longrightarrow> rgb_to_ansi256 r r r = 231)
   \<and> rgb_to_ansi256 0 0 0 = 16 \<and> rgb_to_ansi256 255 255 255 = 231"
proof -
  have "rgb_to_ansi256 r1 r1 r1 \<le> rgb_to_ansi256 r2 r2 r2"
    if "0 \<le> r1" "r1 \<le> r2" "r2 \<le> 248"
    using py_round_div_mono[of 247 "(r1 - 8) * 24" "(r2 - 8) * 24"] gray_level[of r2] that
    by (auto simp: rgb_to_ansi256_def)
  then show ?thesis by (simp add: rgb_to_ansi256_def)
qed

theorem gray_ramp_monotone_up_to_248_witness:
  "(0::int) \<le> 8 \<and> (8::int) \<le> 248 \<and> (248::int) \<le> 248
   \<and> rgb_to_ansi256 8 8 8 \<le> rgb_to_ansi256 248 248 248
   \<and> (248::int) < 249 \<and> rgb_to_ansi256 249 249 249 = 231"
  using gray_ramp_monotone_up_to_248[of 8 248 249] by simp

text \<open>
  Monotonicity over the whole range 0..255 fails between 248 and 249: the last ramp
  index 255 is followed by the cube index 231.
\<close>

theorem gray_ramp_not_monotone:
  "(0::int) \<le> 248 \<and> (248::int) \<le> 249 \<and> (249::int) \<le> 255
   \<and> rgb_to_ansi256 248 248 248 = 255 \<and> rgb_to_ansi256 249 249 249 = 231
   \<and> \<not> rgb_to_ansi256 248 248 248 \<le> rgb_to_ansi256 249 249 249"
  by (simp add: rgb_to_ansi256_def py_round_div_def)

subsection \<open>Parsing a colour token\<close>

lemma hex_digit_facts:
  assumes "hex_digit c = Some d"
  shows "\<not> is_space c" "c \<noteq> CHR ''-''" "c \<noteq> CHR ''+''" "c \<noteq> CHR ''x''" "c \<noteq> CHR ''X''"
        "c \<noteq> CHR ''_''" "c \<noteq> CHR ''#''" "d < 16"
  using assms by (auto simp: hex_digit_def is_space_def ord_def Let_def split: if_splits)

lemma fixed_chars:
  "hex_digit CHR ''-'' = None" "hex_digit CHR ''+'' = None" "hex_digit CHR ''x'' = None"
  "hex_digit CHR ''X'' = None" "hex_digit CHR ''_'' = None" "hex_digit CHR ''?'' = None"
  "hex_digit CHR '' '' = None"
  "\<not> is_space CHR ''-''" "\<not> is_space CHR ''+''" "\<not> is_space CHR ''0''"
  "\<not> is_space CHR ''?''" "is_space CHR '' ''"
  by (simp_all add: hex_digit_def is_space_def ord_def)

lemma zero_hex: "hex_digit c = None \<Longrightarrow> c \<noteq> CHR ''0''"
  by (auto simp: hex_digit_def ord_def)

lemma long_from_string_Nil: "long_from_string [] = Inl ValueError"
  by (simp add: long_from_string_def py_strip_def)

lemma long_from_string_two_digits:
  assumes "hex_digit a = Some x" "hex_digit b = Some y"
  shows "long_from_string [a, b] = Inr (int (16 * x + y))"
  using assms hex_digit_facts[OF assms(1)] hex_digit_facts[OF assms(2)]
  by (simp add: long_from_string_def py_strip_def)

lemma long_from_string_one_bad:
  assumes "hex_digit a = None"
  shows "long_from_string [a] = Inl ValueError"
  using assms by (simp add: long_from_string_def py_strip_def)

lemma long_from_string_first_bad:
  assumes "\<not> plain_char a"
  shows "long_from_string [a, b] = Inl ValueError"
proof -
  from assms have a: "hex_digit a = None" "\<not> is_space a" "a \<noteq> CHR ''+''" "a \<noteq> CHR ''-''"
    by (simp_all add: plain_char_def is_hex_def)
  have z: "a \<noteq> CHR ''0''" using a(1) by (rule zero_hex)
  show ?thesis using a z by (simp add: long_from_string_def py_strip_def)
qed

lemma long_from_string_second_bad:
  assumes "\<not> plain_char b"
  shows "long_from_string [a, b] = Inl ValueError"
proof -
  from assms have b: "hex_digit b = None" "\<not> is_space b" "b \<noteq> CHR ''+''" "b \<noteq> CHR ''-''"
    by (simp_all add: plain_char_def is_hex_def)
  have s: "py_strip [a, b] = (if is_space a then [b] else [a, b])"
    using b by (simp add: py_strip_def)
  show ?thesis
  proof (cases "hex_digit a")
    case None
    then show ?thesis using b s by (simp add: long_from_string_def)
  next
    case (Some x)
    note h = hex_digit_facts[OF Some]
    show ?thesis using b s h Some by (simp add: long_from_string_def)
  qed
qed

lemma long_from_string_doubled_bad:
  assumes "hex_digit c = None"
  shows "long_from_string [c, c] = Inl ValueError"
proof (cases "is_space c")
  case True
  then show ?thesis by (simp add: long_from_string_def py_strip_def)
next
  case False
  from False zero_hex[OF assms] assms show ?thesis
    by (auto simp: long_from_string_def py_strip_def fixed_chars)
qed

subsection \<open>From code points to characters\<close>

lemma ord_char_of: "(c::nat) < 256 \<Longrightarrow> ord (char_of c) = c"
  by (simp add: ord_def)

lemma char_of_eq:
  assumes "(c::nat) < 256"
  shows "(char_of c = CHR ''+'') = (c = 43)" "(char_of c = CHR ''-'') = (c = 45)"
        "(char_of c = CHR ''#'') = (c = 35)"
proof -
  have "\<And>d. (char_of c = d) = (c = ord d)"
    using assms by (auto simp: ord_def)
  then show "(char_of c = CHR ''+'') = (c = 43)" "(char_of c = CHR ''-'') = (c = 45)"
        "(char_of c = CHR ''#'') = (c = 35)"
    by (simp_all add: ord_def)
qed

lemma hex_cp_digit:
  assumes "hex_cp c"
  shows "c < 128" "\<exists>x. hex_digit (char_of c) = Some x \<and> x < 16" "c \<noteq> 35"
proof -
  from assms show c: "c < 128" by (simp add: hex_cp_def)
  from assms obtain x where x: "hex_digit (char_of c) = Some x"
    by (auto simp: hex_cp_def is_hex_def)
  with hex_digit_facts(8)[OF x] show "\<exists>x. hex_digit (char_of c) = Some x \<and> x < 16" by blast
  from hex_digit_facts(7)[OF x] c show "c \<noteq> 35" by (simp add: char_of_eq)
qed

lemma not_plain_char_of:
  assumes "\<not> plain db c" "c < 128"
  shows "\<not> plain_char (char_of c)"
  using assms
  by (simp add: plain_def plain_char_def hex_cp_def is_space_def ord_char_of char_of_eq)

lemma py_int16_Nil: "py_int16 db [] = Inl ValueError"
  by (simp add: py_int16_def long_from_string_Nil)

lemma py_int16_two_digits:
  assumes "a < 128" "b < 128" "hex_digit (char_of a) = Some x" "hex_digit (char_of b) = Some y"
  shows "py_int16 db [a, b] = Inr (int (16 * x + y))"
  using assms by (simp add: py_int16_def long_from_string_two_digits)

text \<open>What the transformation makes of one character that is not plain.\<close>

lemma transform_bad:
  assumes "\<not> plain db c"
  shows "transform db (c # rest) = [CHR ''?''] \<or>
         (\<exists>d. transform db (c # rest) = d # transform db rest \<and> \<not> plain_char d)"
proof (cases "c < 127")
  case True
  with assms have "\<not> plain_char (char_of c)" by (simp add: not_plain_char_of)
  with True show ?thesis by simp
next
  case False
  with assms have "\<not> is_whitespace db c" "decimal_value db c = None"
    by (simp_all add: plain_def wide_space_def wide_digit_def)
  with False show ?thesis by simp
qed

lemma transform_one: "\<exists>d. transform db [c] = [d]"
  by (simp split: option.splits)

lemma transform_cons: "transform db (c # rest) = [CHR ''?''] \<or> (\<exists>d. transform db (c # rest) = d # transform db rest)"
  by (simp split: option.splits)

lemma question_mark: "\<not> plain_char CHR ''?''" "hex_digit CHR ''?'' = None"
  by (simp_all add: plain_char_def is_hex_def is_space_def hex_digit_def ord_def)

lemma not_plain_char_hex: "\<not> plain_char d \<Longrightarrow> hex_digit d = None"
  by (simp add: plain_char_def is_hex_def)

lemma py_int16_short_bad:
  assumes "length s \<le> 2" "\<not> list_all (plain db) s"
  shows "py_int16 db s = Inl ValueError"
proof (cases s)
  case Nil
  with assms show ?thesis by simp
next
  case (Cons a s')
  show ?thesis
  proof (cases s')
    case Nil
    with Cons assms have bad: "\<not> plain db a" and s: "s = [a]" by simp_all
    show ?thesis
    proof (cases "a < 128")
      case True
      with bad show ?thesis
        by (simp add: s py_int16_def long_from_string_one_bad not_plain_char_hex not_plain_char_of)
    next
      case False
      from transform_bad[OF bad, of "[]"] False show ?thesis
        by (auto simp: s py_int16_def long_from_string_one_bad question_mark not_plain_char_hex
            simp del: transform.simps(2))
    qed
  next
    case (Cons b s'')
    with \<open>s = a # s'\<close> assms have s: "s = [a, b]" and bad: "\<not> plain db a \<or> \<not> plain db b"
      by simp_all
    show ?thesis
    proof (cases "a < 128 \<and> b < 128")
      case True
      with bad show ?thesis
        by (auto simp: s py_int16_def long_from_string_first_bad long_from_string_second_bad
            not_plain_char_of)
    next
      case False
      then have p: "py_int16 db s = long_from_string (transform db [a, b])"
        by (auto simp: s py_int16_def)
      from transform_one[of db b] obtain e where e: "transform db [b] = [e]" by blast
      from bad show ?thesis
      proof
        assume "\<not> plain db a"
        from transform_bad[OF this, of "[b]"] show ?thesis
          by (auto simp: p e long_from_string_one_bad long_from_string_first_bad question_mark
              simp del: transform.simps(2))
      next
        assume b: "\<not> plain db b"
        from transform_bad[OF b, of "[]"] have e': "\<not> plain_char e"
          using e by (auto simp: question_mark simp del: transform.simps(2))
        from transform_cons[of db a "[b]"] show ?thesis
          by (auto simp: p e e' long_from_string_one_bad long_from_string_second_bad question_mark
              simp del: transform.simps(2))
      qed
    qed
  qed
qed

lemma py_int16_doubled_bad:
  assumes "\<not> hex_cp c" "\<not> wide_digit db c"
  shows "py_int16 db [c, c] = Inl ValueError"
proof (cases "c < 128")
  case True
  with assms(1) have "hex_digit (char_of c) = None" by (simp add: hex_cp_def is_hex_def)
  with True show ?thesis by (simp add: py_int16_def long_from_string_doubled_bad)
next
  case False
  then have p: "py_int16 db [c, c] = long_from_string (transform db [c, c])"
    by (simp add: py_int16_def)
  show ?thesis
  proof (cases "is_whitespace db c")
    case True
    with False have "transform db [c, c] = [CHR '' '', CHR '' '']" by simp
    then show ?thesis by (simp add: p long_from_string_doubled_bad fixed_chars)
  next
    case nw: False
    from assms(2) False have "decimal_value db c = None" by (simp add: wide_digit_def)
    with False nw have "transform db [c, c] = [CHR ''?'']" by simp
    then show ?thesis by (simp add: p long_from_string_one_bad question_mark)
  qed
qed

lemma length3: "length h = 3 \<Longrightarrow> \<exists>a b c. h = [a, b, c]"
  by (cases h; simp; rename_tac x xs; case_tac xs; simp; rename_tac y ys; case_tac ys; simp)

lemma take6_slices: "take 6 h = slice 0 2 h @ slice 2 4 h @ slice 4 6 h"
  using take_add[of 2 4 h] take_add[of 2 2 "drop 2 h"] by (simp add: slice_def)

lemma hex6:
  assumes "a < 128" "b < 128" "c < 128" "d < 128" "e < 128" "f < 128" "a \<noteq> 35"
    and "hex_digit (char_of a) = Some xa" "hex_digit (char_of b) = Some xb"
        "hex_digit (char_of c) = Some xc" "hex_digit (char_of d) = Some xd"
        "hex_digit (char_of e) = Some xe" "hex_digit (char_of f) = Some xf"
  shows "hex_to_rgb db (a # b # c # d # e # f # rest) =
           Inr (int (16 * xa + xb), int (16 * xc + xd), int (16 * xe + xf))"
  using assms by (simp add: hex_to_rgb_def slice_def py_int16_two_digits)

lemma hex3:
  assumes "a < 128" "b < 128" "c < 128" "a \<noteq> 35"
    and "hex_digit (char_of a) = Some xa" "hex_digit (char_of b) = Some xb"
        "hex_digit (char_of c) = Some xc"
  shows "hex_to_rgb db [a, b, c] = Inr (int (17 * xa), int (17 * xb), int (17 * xc))"
  using assms by (simp add: hex_to_rgb_def slice_def py_int16_two_digits)

lemma lstrip_hash_hex: "list_all hex_cp h \<Longrightarrow> lstrip_hash h = h"
  by (cases h) (auto simp: lstrip_hash_def dest: hex_cp_digit(3))

lemma hex_to_rgb_lstrip: "hex_to_rgb db t = hex_to_rgb db (lstrip_hash t)"
  by (simp add: hex_to_rgb_def lstrip_hash_def dropWhile_idem)

lemma hex_to_rgb_fails:
  assumes "h = lstrip_hash t"
      and "h2 = (if length h = 3 then concat (map (\<lambda>ch. [ch, ch]) h) else h)"
      and "py_int16 db (slice 0 2 h2) = Inl ValueError \<or> py_int16 db (slice 2 4 h2) = Inl ValueError
           \<or> py_int16 db (slice 4 6 h2) = Inl ValueError"
  shows "hex_to_rgb db t = Inl ValueError"
proof -
  have e: "\<And>e::error. e = ValueError" by (case_tac e) simp
  have "hex_to_rgb db t =
          (case py_int16 db (slice 0 2 h2) of Inl e \<Rightarrow> Inl e
           | Inr r \<Rightarrow> (case py_int16 db (slice 2 4 h2) of Inl e \<Rightarrow> Inl e
              | Inr g \<Rightarrow> (case py_int16 db (slice 4 6 h2) of Inl e \<Rightarrow> Inl e | Inr b \<Rightarrow> Inr (r, g, b))))"
    unfolding assms(1,2) hex_to_rgb_def lstrip_hash_def Let_def by (rule refl)
  with assms(3) show ?thesis
    by (auto split: sum.splits intro: e)
qed

lemma hex_to_rgb_fail_short:
  assumes "length (lstrip_hash t) \<in> {0, 1, 2, 4}"
  shows "hex_to_rgb db t = Inl ValueError"
proof -
  from assms have "slice 2 4 (lstrip_hash t) = [] \<or> slice 4 6 (lstrip_hash t) = []"
    by (auto simp: slice_def)
  then show ?thesis
    using assms by (intro hex_to_rgb_fails[OF refl refl]) (auto simp: py_int16_Nil)
qed

lemma hex_to_rgb_fail_three:
  assumes "length (lstrip_hash t) = 3"
      and "\<not> list_all (\<lambda>c. hex_cp c \<or> wide_digit db c) (lstrip_hash t)"
  shows "hex_to_rgb db t = Inl ValueError"
proof -
  from length3[OF assms(1)] obtain a b c where h: "lstrip_hash t = [a, b, c]" by blast
  with assms(2) have "py_int16 db [a, a] = Inl ValueError \<or> py_int16 db [b, b] = Inl ValueError
      \<or> py_int16 db [c, c] = Inl ValueError"
    using py_int16_doubled_bad[of a db] py_int16_doubled_bad[of b db] py_int16_doubled_bad[of c db]
    by auto
  then show ?thesis
    by (intro hex_to_rgb_fails[OF refl refl]) (auto simp: h slice_def)
qed

lemma hex_to_rgb_fail_char:
  assumes "length (lstrip_hash t) \<noteq> 3" "\<not> list_all (plain db) (take 6 (lstrip_hash t))"
  shows "hex_to_rgb db t = Inl ValueError"
proof -
  let ?h = "lstrip_hash t"
  have len: "length (slice 0 2 ?h) \<le> 2" "length (slice 2 4 ?h) \<le> 2" "length (slice 4 6 ?h) \<le> 2"
    by (simp_all add: slice_def)
  from assms(2) have "\<not> list_all (plain db) (slice 0 2 ?h) \<or> \<not> list_all (plain db) (slice 2 4 ?h)
      \<or> \<not> list_all (plain db) (slice 4 6 ?h)"
    by (simp add: take6_slices)
  with len have "py_int16 db (slice 0 2 ?h) = Inl ValueError \<or> py_int16 db (slice 2 4 ?h) = Inl ValueError
      \<or> py_int16 db (slice 4 6 ?h) = Inl ValueError"
    using py_int16_short_bad by blast
  then show ?thesis
    using assms(1) by (intro hex_to_rgb_fails[OF refl refl]) simp
qed

lemma hex_to_rgb_valid:
  assumes "valid_hex_token t"
  shows "\<exists>r g b. hex_to_rgb db t = Inr (r, g, b)
           \<and> 0 \<le> r \<and> r \<le> 255 \<and> 0 \<le> g \<and> g \<le> 255 \<and> 0 \<le> b \<and> b \<le> 255"
proof -
  let ?h = "strip_one_hash t"
  from assms have len: "length ?h = 3 \<or> length ?h = 6" and hx: "list_all hex_cp ?h"
    by (simp_all add: valid_hex_token_def Let_def)
  have "lstrip_hash t = lstrip_hash ?h"
    by (cases t) (simp_all add: strip_one_hash_def lstrip_hash_def)
  with hx have eq: "hex_to_rgb db t = hex_to_rgb db ?h"
    using hex_to_rgb_lstrip[of db t] by (simp add: lstrip_hash_hex)
  from len show ?thesis
  proof
    assume "length ?h = 3"
    from length3[OF this] obtain a b c where h: "?h = [a, b, c]" by blast
    with hx have cp: "hex_cp a" "hex_cp b" "hex_cp c" by simp_all
    from hex_cp_digit(2)[OF cp(1)] hex_cp_digit(2)[OF cp(2)] hex_cp_digit(2)[OF cp(3)]
    obtain xa xb xc
      where d: "hex_digit (char_of a) = Some xa" "hex_digit (char_of b) = Some xb"
        "hex_digit (char_of c) = Some xc" and lt: "xa < 16" "xb < 16" "xc < 16"
      by blast
    have "hex_to_rgb db [a, b, c] = Inr (int (17 * xa), int (17 * xb), int (17 * xc))"
      by (rule hex3) (use cp d in \<open>simp_all add: hex_cp_digit\<close>)
    with lt show ?thesis by (simp add: eq h)
  next
    assume l6: "length ?h = 6"
    then obtain a b c r where h1: "?h = a # b # c # r" and "length r = 3"
      by (cases ?h; simp; rename_tac x xs; case_tac xs; simp; rename_tac y ys; case_tac ys; simp)
    from length3[OF this(2)] obtain d e f where "r = [d, e, f]" by blast
    with h1 have h: "?h = [a, b, c, d, e, f]" by simp
    with hx have cp: "hex_cp a" "hex_cp b" "hex_cp c" "hex_cp d" "hex_cp e" "hex_cp f"
      by simp_all
    from hex_cp_digit(2)[OF cp(1)] hex_cp_digit(2)[OF cp(2)] hex_cp_digit(2)[OF cp(3)]
      hex_cp_digit(2)[OF cp(4)] hex_cp_digit(2)[OF cp(5)] hex_cp_digit(2)[OF cp(6)]
    obtain xa xb xc xd xe xf
      where dg: "hex_digit (char_of a) = Some xa" "hex_digit (char_of b) = Some xb"
        "hex_digit (char_of c) = Some xc" "hex_digit (char_of d) = Some xd"
        "hex_digit (char_of e) = Some xe" "hex_digit (char_of f) = Some xf"
        and lt: "xa < 16" "xb < 16" "xc < 16" "xd < 16" "xe < 16" "xf < 16"
      by blast
    have "hex_to_rgb db [a, b, c, d, e, f]
            = Inr (int (16 * xa + xb), int (16 * xc + xd), int (16 * xe + xf))"
      by (rule hex6) (use cp dg in \<open>simp_all add: hex_cp_digit\<close>)
    with lt show ?thesis by (simp add: eq h)
  qed
qed

text \<open>
  C2, as the code has it: a token that is valid in the specification's sense parses, with
  every channel in 0..255. With every leading \<^verbatim>\<open>#\<close> removed, a token of length 0, 1, 2
  or 4 fails; a token of length 3 fails when one of its characters is neither a hex digit
  nor a character beyond ASCII with a decimal digit value in the Unicode database; and a
  token of any other length fails when one of its first six characters is not plain, that
  is neither such a digit, nor a sign, nor white space. Nothing is said of the remaining
  tokens.
\<close>

theorem hex_to_rgb_accepts_and_rejects:
  "(valid_hex_token t \<longrightarrow>
      (\<exists>r g b. hex_to_rgb db t = Inr (r, g, b)
         \<and> 0 \<le> r \<and> r \<le> 255 \<and> 0 \<le> g \<and> g \<le> 255 \<and> 0 \<le> b \<and> b \<le> 255))
   \<and> (length (lstrip_hash t) \<in> {0, 1, 2, 4} \<longrightarrow> hex_to_rgb db t = Inl ValueError)
   \<and> (length (lstrip_hash t) = 3
        \<and> \<not> list_all (\<lambda>c. hex_cp c \<or> wide_digit db c) (lstrip_hash t)
        \<longrightarrow> hex_to_rgb db t = Inl ValueError)
   \<and> (length (lstrip_hash t) \<noteq> 3 \<and> \<not> list_all (plain db) (take 6 (lstrip_hash t))
        \<longrightarrow> hex_to_rgb db t = Inl ValueError)"
  using hex_to_rgb_valid hex_to_rgb_fail_short hex_to_rgb_fail_three hex_to_rgb_fail_char
  by blast

lemmas token_eval =
  token_def valid_hex_token_def strip_one_hash_def lstrip_hash_def plain_def hex_cp_def is_hex_def
  wide_digit_def wide_space_def hex_to_rgb_def slice_def py_int16_def long_from_string_def
  py_strip_def is_space_def hex_digit_def ord_def char_of_eq_iff unicode_14_def digit_zeros_def

lemma token_facts:
  "valid_hex_token (token ''#1a2B3c'')" "valid_hex_token (token ''f80'')"
  "length (lstrip_hash (token ''#1234'')) \<in> {0, 1, 2, 4}"
  "length (lstrip_hash (token ''fg0'')) = 3"
  "\<not> list_all (\<lambda>c. hex_cp c \<or> wide_digit unicode_14 c) (lstrip_hash (token ''fg0''))"
  "length (lstrip_hash [49, 233, 1633]) = 3"
  "\<not> list_all (\<lambda>c. hex_cp c \<or> wide_digit unicode_14 c) (lstrip_hash [49, 233, 1633])"
  "length (lstrip_hash (token ''12345z'')) \<noteq> 3"
  "\<not> list_all (plain unicode_14) (take 6 (lstrip_hash (token ''12345z'')))"
  "hex_to_rgb unicode_14 (token ''#1a2B3c'') = Inr (26, 43, 60)"
  "hex_to_rgb unicode_14 (token ''f80'') = Inr (255, 136, 0)"
  by (simp_all add: token_eval)

theorem hex_to_rgb_accepts_and_rejects_witness:
  "valid_hex_token (token ''#1a2B3c'') \<and> hex_to_rgb unicode_14 (token ''#1a2B3c'') = Inr (26, 43, 60)
   \<and> valid_hex_token (token ''f80'') \<and> hex_to_rgb unicode_14 (token ''f80'') = Inr (255, 136, 0)
   \<and> length (lstrip_hash (token ''#1234'')) \<in> {0, 1, 2, 4}
   \<and> hex_to_rgb unicode_14 (token ''#1234'') = Inl ValueError
   \<and> length (lstrip_hash (token ''fg0'')) = 3
   \<and> \<not> list_all (\<lambda>c. hex_cp c \<or> wide_digit unicode_14 c) (lstrip_hash (token ''fg0''))
   \<and> hex_to_rgb unicode_14 (token ''fg0'') = Inl ValueError
   \<and> length (lstrip_hash [49, 233, 1633]) = 3
   \<and> \<not> list_all (\<lambda>c. hex_cp c \<or> wide_digit unicode_14 c) (lstrip_hash [49, 233, 1633])
   \<and> hex_to_rgb unicode_14 [49, 233, 1633] = Inl ValueError
   \<and> length (lstrip_hash (token ''12345z'')) \<noteq> 3
   \<and> \<not> list_all (plain unicode_14) (take 6 (lstrip_hash (token ''12345z'')))
   \<and> hex_to_rgb unicode_14 (token ''12345z'') = Inl ValueError"
proof -
  have r2: "hex_to_rgb unicode_14 (token ''#1234'') = Inl ValueError"
    by (rule hex_to_rgb_accepts_and_rejects
          [THEN conjunct2, THEN conjunct1, rule_format, OF token_facts(3)])
  have r3: "hex_to_rgb unicode_14 (token ''fg0'') = Inl ValueError"
    by (rule hex_to_rgb_accepts_and_rejects
          [THEN conjunct2, THEN conjunct2, THEN conjunct1, rule_format,
           OF conjI[OF token_facts(4) token_facts(5)]])
  have r4: "hex_to_rgb unicode_14 [49, 233, 1633] = Inl ValueError"
    by (rule hex_to_rgb_accepts_and_rejects
          [THEN conjunct2, THEN conjunct2, THEN conjunct1, rule_format,
           OF conjI[OF token_facts(6) token_facts(7)]])
  have r5: "hex_to_rgb unicode_14 (token ''12345z'') = Inl ValueError"
    by (rule hex_to_rgb_accepts_and_rejects
          [THEN conjunct2, THEN conjunct2, THEN conjunct2, rule_format,
           OF conjI[OF token_facts(8) token_facts(9)]])
  show ?thesis
    by (intro conjI; (rule token_facts r2 r3 r4 r5))
qed

text \<open>
  The rule "every other input fails" does not hold: eight hex digits are no valid token,
  yet the code reads the first six and succeeds. The same happens with five digits, with
  a repeated \<^verbatim>\<open>#\<close>, with a sign, where a channel leaves the range 0..255, and with
  decimal digits of another script, here the Arabic-Indic digits one, two and three.
\<close>

theorem hex_to_rgb_accepts_invalid_token:
  "\<not> valid_hex_token (token ''ff0000ff'')
   \<and> hex_to_rgb unicode_14 (token ''ff0000ff'') = Inr (255, 0, 0)
   \<and> \<not> valid_hex_token (token ''12345'')
   \<and> hex_to_rgb unicode_14 (token ''12345'') = Inr (18, 52, 5)
   \<and> \<not> valid_hex_token (token ''##abc'')
   \<and> hex_to_rgb unicode_14 (token ''##abc'') = Inr (170, 187, 204)
   \<and> \<not> valid_hex_token (token ''-f0000'')
   \<and> hex_to_rgb unicode_14 (token ''-f0000'') = Inr (- 15, 0, 0)
   \<and> \<not> valid_hex_token [1633, 1634, 1635]
   \<and> hex_to_rgb unicode_14 [1633, 1634, 1635] = Inr (17, 34, 51)"
  by (simp add: token_eval)

section \<open>Properties of the renderer\<close>

subsection \<open>The colour map is read through the cell colour only\<close>

lemma cell_step_cong:
  assumes "cell_rgb db cm row col = cell_rgb db cm' row col"
  shows "cell_step mode db cm row col ch st = cell_step mode db cm' row col ch st"
  using assms by (simp add: cell_step_def)

lemma row_loop_cong:
  assumes "\<And>c. cell_rgb db cm row c = cell_rgb db cm' row c"
  shows "row_loop mode db cm row col line st = row_loop mode db cm' row col line st"
  using assms
proof (induction line arbitrary: col st)
  case Nil
  show ?case by simp
next
  case (Cons ch rest)
  then show ?case by (simp add: cell_step_cong[where cm = cm and cm' = cm'])
qed

lemma row_out_cong:
  assumes "\<And>c. cell_rgb db cm row c = cell_rgb db cm' row c"
  shows "row_out mode db cm row line = row_out mode db cm' row line"
  by (simp add: row_out_def row_loop_cong[OF assms])

lemma cell_rgb_drop:
  assumes "cm (row, col) = Some tok" "hex_to_rgb db tok = Inl e"
  shows "cell_rgb db (cm((row, col) := None)) r c = cell_rgb db cm r c"
  using assms by (simp add: cell_rgb_def)

lemma frame_to_text_color_map:
  "frame_to_text (f\<lparr>color_map := cm\<rparr>) = frame_to_text f"
  by (simp add: frame_to_text_def cong: option.case_cong if_cong)

lemma render_drop_cell:
  assumes "color_map f (row_idx, col_idx) = Some tok" "hex_to_rgb db tok = Inl e"
  shows "render_frame_with_colors db (f\<lparr>color_map := (color_map f)((row_idx, col_idx) := None)\<rparr>)
           width color_mode
         = render_frame_with_colors db f width color_mode"
proof -
  let ?f' = "f\<lparr>color_map := (color_map f)((row_idx, col_idx) := None)\<rparr>"
  have p: "padded_lines ?f' width = padded_lines f width"
    by (simp add: padded_lines_def frame_to_text_color_map)
  have "out_rows db ?f' width color_mode = out_rows db f width color_mode"
    unfolding out_rows_def p Let_def
    by (rule map_cong[OF refl])
       (simp add: row_out_cong
          [OF cell_rgb_drop[where cm = "color_map f" and row = row_idx and col = col_idx, OF assms]])
  then show ?thesis by (simp add: render_frame_with_colors_def)
qed

subsection \<open>What a cell appends\<close>

text \<open>
  A cell without colour appends its character, after a reset when a colour was active,
  and never a colour-set escape; it leaves no colour active.
\<close>

lemma cell_step_uncolored:
  assumes "cell_rgb db cm row col = None"
  shows "cell_step mode db cm row col ch (out, prev) =
     (if mode = ''truecolor'' then
        (out @ (if prev \<noteq> PyNone \<and> prev \<noteq> Tuple None then [reset] else []) @ [[ch]], Tuple None)
      else if mode = ''256'' then
        (out @ (if prev \<noteq> PyNone then [reset] else []) @ [[ch]], PyNone)
      else (out @ [[ch]], prev))"
  using assms by (auto simp: cell_step_def)

text \<open>Any cell appends to \<open>out\<close>, and so does the loop over a row.\<close>

lemma cell_step_appends:
  "\<exists>ext p'. cell_step mode db cm row col ch (out, p) = (out @ ext, p')"
  by (cases "cell_rgb db cm row col")
     (auto simp: cell_step_def Let_def split: prev_color.splits)

lemma row_loop_appends:
  "\<exists>ext p'. row_loop mode db cm row col line (out, p) = (out @ ext, p')"
proof (induction line arbitrary: col out p)
  case Nil
  show ?case by simp
next
  case (Cons ch rest)
  from cell_step_appends[of mode db cm row col ch out p]
  obtain e1 p1 where s: "cell_step mode db cm row col ch (out, p) = (out @ e1, p1)" by blast
  from Cons[of "Suc col" "out @ e1" p1]
  obtain e2 p2 where "row_loop mode db cm row (Suc col) rest (out @ e1, p1) = ((out @ e1) @ e2, p2)"
    by blast
  with s show ?case by simp
qed

lemma row_loop_append:
  "row_loop mode db cm row col (xs @ ys) st
     = row_loop mode db cm row (col + length xs) ys (row_loop mode db cm row col xs st)"
  by (induction xs arbitrary: col st) simp_all

lemma row_out_at_uncolored_cell:
  assumes "cell_rgb db cm row col = None" "col < length line"
  shows "\<exists>pre rest. (pre = [] \<or> pre = [reset])
           \<and> row_out mode db cm row line
               = fst (row_loop mode db cm row 0 (take col line) ([], PyNone))
                 @ pre @ [[line ! col]] @ rest"
proof -
  obtain o1 p1 where b: "row_loop mode db cm row 0 (take col line) ([], PyNone) = (o1, p1)"
    by (cases "row_loop mode db cm row 0 (take col line) ([], PyNone)") auto
  have "\<exists>pre p2. (pre = [] \<or> pre = [reset])
          \<and> cell_step mode db cm row col (line ! col) (o1, p1) = (o1 @ pre @ [[line ! col]], p2)"
    by (simp add: cell_step_uncolored[OF assms(1)])
  then obtain pre p2 where pre: "pre = [] \<or> pre = [reset]"
    and c: "cell_step mode db cm row col (line ! col) (o1, p1) = (o1 @ pre @ [[line ! col]], p2)"
    by blast
  from row_loop_appends[of mode db cm row "Suc col" "drop (Suc col) line" "o1 @ pre @ [[line ! col]]" p2]
  obtain e3 p3 where r: "row_loop mode db cm row (Suc col) (drop (Suc col) line)
      (o1 @ pre @ [[line ! col]], p2) = ((o1 @ pre @ [[line ! col]]) @ e3, p3)"
    by blast
  have split: "line = take col line @ (line ! col) # drop (Suc col) line"
    using assms(2) by (simp add: id_take_nth_drop[symmetric])
  have len: "min (length line) col = col" using assms(2) by simp
  have "row_loop mode db cm row 0 line ([], PyNone) = ((o1 @ pre @ [[line ! col]]) @ e3, p3)"
    by (subst split) (simp add: row_loop_append len b c r del: append_assoc)
  then have "row_out mode db cm row line
      = o1 @ pre @ [[line ! col]] @ (e3 @ (if p3 \<noteq> PyNone then [reset] else []))"
    by (simp add: row_out_def)
  with pre b show ?thesis by auto
qed

text \<open>
  C9: a cell whose token fails to parse is a cell without colour. Whatever was written
  before it and whichever colour was active, the cell appends its character, after at
  most a reset, and no colour-set escape; in the row of the frame the pieces are those
  of the cells before it, then at most a reset, then the character, then the rest of the
  row. Nothing is raised: the frame renders, in every mode and at every width, exactly
  as it does with that entry taken out of the colour map, so no other cell changes, and
  the same holds for the texts the player prepares and for the whole session.
\<close>

theorem malformed_token_is_uncolored:
  assumes "color_map f (row_idx, col_idx) = Some tok" "hex_to_rgb db tok = Inl e"
  shows "cell_rgb db (color_map f) row_idx col_idx = None
     \<and> (\<forall>out prev. \<exists>pre prev'. (pre = [] \<or> pre = [reset])
           \<and> cell_step color_mode db (color_map f) row_idx col_idx ch (out, prev)
               = (out @ pre @ [[ch]], prev'))
     \<and> (row_idx < length (padded_lines f width)
           \<and> col_idx < length (padded_lines f width ! row_idx) \<longrightarrow>
         (\<exists>pre rest. (pre = [] \<or> pre = [reset])
           \<and> out_rows db f width color_mode ! row_idx
               = fst (row_loop color_mode db (color_map f) row_idx 0
                        (take col_idx (padded_lines f width ! row_idx)) ([], PyNone))
                 @ pre @ [[padded_lines f width ! row_idx ! col_idx]] @ rest))
     \<and> render_frame_with_colors db f width color_mode
       = render_frame_with_colors db
           (f\<lparr>color_map := (color_map f)((row_idx, col_idx) := None)\<rparr>) width color_mode
     \<and> frame_texts db args env (before @ f # after)
       = frame_texts db args env
           (before @ f\<lparr>color_map := (color_map f)((row_idx, col_idx) := None)\<rparr> # after)
     \<and> play_animation db args env (before @ f # after) cancel
       = play_animation db args env
           (before @ f\<lparr>color_map := (color_map f)((row_idx, col_idx) := None)\<rparr> # after) cancel"
proof -
  let ?f' = "f\<lparr>color_map := (color_map f)((row_idx, col_idx) := None)\<rparr>"
  have none: "cell_rgb db (color_map f) row_idx col_idx = None"
    using assms by (simp add: cell_rgb_def)
  have cell: "\<forall>out prev. \<exists>pre prev'. (pre = [] \<or> pre = [reset])
           \<and> cell_step color_mode db (color_map f) row_idx col_idx ch (out, prev)
               = (out @ pre @ [[ch]], prev')"
    by (simp add: cell_step_uncolored[OF none])
  have row: "\<exists>pre rest. (pre = [] \<or> pre = [reset])
           \<and> out_rows db f width color_mode ! row_idx
               = fst (row_loop color_mode db (color_map f) row_idx 0
                        (take col_idx (padded_lines f width ! row_idx)) ([], PyNone))
                 @ pre @ [[padded_lines f width ! row_idx ! col_idx]] @ rest"
    if "row_idx < length (padded_lines f width)"
       "col_idx < length (padded_lines f width ! row_idx)"
  proof -
    have "out_rows db f width color_mode ! row_idx
          = row_out color_mode db (color_map f) row_idx (padded_lines f width ! row_idx)"
      using that(1) by (simp add: out_rows_def Let_def)
    with row_out_at_uncolored_cell[OF none that(2), of color_mode] show ?thesis by simp
  qed
  have texts: "frame_texts db args env (before @ f # after)
       = frame_texts db args env (before @ ?f' # after)"
    by (simp add: render_drop_cell[OF assms] frame_texts_def Let_def frame_to_text_color_map)
  then have "play_animation db args env (before @ f # after) cancel
       = play_animation db args env (before @ ?f' # after) cancel"
    by (simp add: play_animation_def encoded_frames_def)
  with none cell row texts show ?thesis
    by (simp add: render_drop_cell[OF assms])
qed

lemma bad_token_facts:
  "color_map bad_token_frame (0, 1) = Some (token ''#12'')"
  "hex_to_rgb db (token ''#12'') = Inl ValueError"
  by code_simp+

lemma bad_token_lines: "padded_lines bad_token_frame (Some 2) = [''AB'']"
  by code_simp

lemma bad_token_row:
  "out_rows db bad_token_frame (Some 2) ''256'' ! 0 = [ESC # ''[38;5;196m'', ''A'', reset, ''B'']"
  by code_simp

theorem malformed_token_is_uncolored_witness:
  "color_map bad_token_frame (0, 1) = Some (token ''#12'')
   \<and> hex_to_rgb unicode_14 (token ''#12'') = Inl ValueError
   \<and> 0 < length (padded_lines bad_token_frame (Some 2))
   \<and> 1 < length (padded_lines bad_token_frame (Some 2) ! 0)
   \<and> cell_rgb unicode_14 (color_map bad_token_frame) 0 1 = None
   \<and> out_rows unicode_14 bad_token_frame (Some 2) ''256'' ! 0
       = [ESC # ''[38;5;196m'', ''A'', reset, ''B'']
   \<and> (\<exists>pre rest. (pre = [] \<or> pre = [reset])
         \<and> out_rows unicode_14 bad_token_frame (Some 2) ''256'' ! 0
             = fst (row_loop ''256'' unicode_14 (color_map bad_token_frame) 0 0
                      (take 1 (padded_lines bad_token_frame (Some 2) ! 0)) ([], PyNone))
               @ pre @ [[padded_lines bad_token_frame (Some 2) ! 0 ! 1]] @ rest)
   \<and> render_frame_with_colors unicode_14 bad_token_frame (Some 2) ''256''
       = render_frame_with_colors unicode_14
           (bad_token_frame\<lparr>color_map := (color_map bad_token_frame)((0, 1) := None)\<rparr>)
           (Some 2) ''256''"
proof -
  have h: "0 < length (padded_lines bad_token_frame (Some 2))"
    "1 < length (padded_lines bad_token_frame (Some 2) ! 0)"
    by (simp_all add: bad_token_lines)
  note t = malformed_token_is_uncolored
    [OF bad_token_facts(1) bad_token_facts(2)[of unicode_14],
     where width = "Some 2" and color_mode = "''256''"]
  have c1: "cell_rgb unicode_14 (color_map bad_token_frame) 0 1 = None"
    by (rule t[THEN conjunct1])
  have c3: "\<exists>pre rest. (pre = [] \<or> pre = [reset])
         \<and> out_rows unicode_14 bad_token_frame (Some 2) ''256'' ! 0
             = fst (row_loop ''256'' unicode_14 (color_map bad_token_frame) 0 0
                      (take 1 (padded_lines bad_token_frame (Some 2) ! 0)) ([], PyNone))
               @ pre @ [[padded_lines bad_token_frame (Some 2) ! 0 ! 1]] @ rest"
    by (rule t[THEN conjunct2, THEN conjunct2, THEN conjunct1, rule_format, OF conjI[OF h]])
  have c4: "render_frame_with_colors unicode_14 bad_token_frame (Some 2) ''256''
       = render_frame_with_colors unicode_14
           (bad_token_frame\<lparr>color_map := (color_map bad_token_frame)((0, 1) := None)\<rparr>)
           (Some 2) ''256''"
    by (rule t[THEN conjunct2, THEN conjunct2, THEN conjunct2, THEN conjunct1])
  show ?thesis
    by (intro conjI;
        (rule h bad_token_facts(1) bad_token_facts(2)[of unicode_14] bad_token_row[of unicode_14]
              c1 c3 c4))
qed

subsection \<open>A row of one colour\<close>

lemma row_loop_run:
  assumes "\<And>c. col \<le> c \<Longrightarrow> c < col + length line \<Longrightarrow> cell_rgb db cm row c = Some (r, g, b)"
      and "mode = ''truecolor'' \<and> p = Tuple (Some (r, g, b))
           \<or> mode = ''256'' \<and> p = Code (rgb_to_ansi256 r g b)"
  shows "row_loop mode db cm row col line (out, p) = (out @ map (\<lambda>ch. [ch]) line, p)"
  using assms
proof (induction line arbitrary: col out)
  case Nil
  show ?case by simp
next
  case (Cons ch rest)
  have here: "cell_rgb db cm row col = Some (r, g, b)" using Cons.prems(1)[of col] by simp
  have step: "cell_step mode db cm row col ch (out, p) = (out @ [[ch]], p)"
    using here Cons.prems(2) by (auto simp: cell_step_def)
  have "row_loop mode db cm row (Suc col) rest (out @ [[ch]], p)
        = ((out @ [[ch]]) @ map (\<lambda>ch. [ch]) rest, p)"
    by (rule Cons.IH) (use Cons.prems in auto)
  with step show ?case by simp
qed

lemma row_out_uniform:
  assumes "mode = ''truecolor'' \<or> mode = ''256''" "line \<noteq> []"
      and "\<And>c. c < length line \<Longrightarrow> cell_rgb db cm row c = Some (r, g, b)"
  shows "row_out mode db cm row line = color_set mode r g b # map (\<lambda>ch. [ch]) line @ [reset]"
proof -
  from assms(2) obtain ch rest where l: "line = ch # rest" by (cases line) auto
  have first: "cell_rgb db cm row 0 = Some (r, g, b)" using assms(3)[of 0] l by simp
  define p where
    "p = (if mode = ''truecolor'' then Tuple (Some (r, g, b)) else Code (rgb_to_ansi256 r g b))"
  have st: "cell_step mode db cm row 0 ch ([], PyNone) = ([color_set mode r g b, [ch]], p)"
    using first assms(1) by (auto simp: cell_step_def color_set_def p_def)
  have "row_loop mode db cm row (Suc 0) rest ([color_set mode r g b, [ch]], p)
        = ([color_set mode r g b, [ch]] @ map (\<lambda>ch. [ch]) rest, p)"
    by (rule row_loop_run) (use assms(1,3) l in \<open>auto simp: p_def\<close>)
  moreover have "p \<noteq> PyNone" by (simp add: p_def)
  ultimately show ?thesis using st l by (simp add: row_out_def)
qed

lemma piece_facts:
  "\<not> is_color_set [ch]" "\<not> is_color_set reset" "[ch] \<noteq> reset"
  "is_color_set (color_set mode r g b)" "color_set mode r g b \<noteq> reset"
  by (auto simp: is_color_set_def reset_def color_set_def sgr_truecolor_def sgr_256_def)

lemma count_chars: "count_list (map (\<lambda>ch. [ch]) line) reset = 0"
  by (induction line) (auto simp: reset_def)

lemma filter_chars: "filter is_color_set (map (\<lambda>ch. [ch]) line) = []"
  by (induction line) (auto simp: is_color_set_def)

text \<open>
  C6: in a colour mode, a row that is not empty and whose cells (those of the padding
  included) all resolve to one colour is written as one colour-set escape, the
  characters of the row, and one reset: among the pieces of the row exactly one is a
  colour-set escape and exactly one is a reset.
\<close>

theorem uniform_row_one_escape_pair:
  assumes "color_mode = ''truecolor'' \<or> color_mode = ''256''"
      and "row_idx < length (padded_lines f width)"
      and "padded_lines f width ! row_idx \<noteq> []"
      and "\<forall>col_idx < length (padded_lines f width ! row_idx).
             cell_rgb db (color_map f) row_idx col_idx = Some (r, g, b)"
  shows "out_rows db f width color_mode ! row_idx
           = color_set color_mode r g b
               # map (\<lambda>ch. [ch]) (padded_lines f width ! row_idx) @ [reset]
         \<and> length (filter is_color_set (out_rows db f width color_mode ! row_idx)) = 1
         \<and> count_list (out_rows db f width color_mode ! row_idx) reset = 1"
proof -
  have "out_rows db f width color_mode ! row_idx
          = row_out color_mode db (color_map f) row_idx (padded_lines f width ! row_idx)"
    using assms(2) by (simp add: out_rows_def Let_def)
  also have "\<dots> = color_set color_mode r g b
                     # map (\<lambda>ch. [ch]) (padded_lines f width ! row_idx) @ [reset]"
    by (rule row_out_uniform) (use assms in auto)
  finally show ?thesis
    by (simp add: piece_facts count_chars filter_chars)
qed

lemma red_row_lines: "padded_lines red_row (Some 3) = [''AB '']"
  by code_simp

lemma red_row_cells:
  "cell_rgb db (color_map red_row) 0 0 = Some (255, 0, 0)"
  "cell_rgb db (color_map red_row) 0 (Suc 0) = Some (255, 0, 0)"
  "cell_rgb db (color_map red_row) 0 (Suc (Suc 0)) = Some (255, 0, 0)"
  by code_simp+

theorem uniform_row_one_escape_pair_witness:
  "0 < length (padded_lines red_row (Some 3))
   \<and> padded_lines red_row (Some 3) ! 0 \<noteq> []
   \<and> length (padded_lines red_row (Some 3) ! 0) = 3
   \<and> cell_rgb unicode_14 (color_map red_row) 0 0 = Some (255, 0, 0)
   \<and> cell_rgb unicode_14 (color_map red_row) 0 1 = Some (255, 0, 0)
   \<and> cell_rgb unicode_14 (color_map red_row) 0 2 = Some (255, 0, 0)
   \<and> out_rows unicode_14 red_row (Some 3) ''256'' ! 0
       = color_set ''256'' 255 0 0
           # map (\<lambda>ch. [ch]) (padded_lines red_row (Some 3) ! 0) @ [reset]
   \<and> length (filter is_color_set (out_rows unicode_14 red_row (Some 3) ''256'' ! 0)) = 1
   \<and> count_list (out_rows unicode_14 red_row (Some 3) ''256'' ! 0) reset = 1"
proof -
  have h1: "''256'' = ''truecolor'' \<or> ''256'' = ''256''" by simp
  have h2: "0 < length (padded_lines red_row (Some 3))" by (simp add: red_row_lines)
  have h3: "padded_lines red_row (Some 3) ! 0 \<noteq> []" by (simp add: red_row_lines)
  have h4: "\<forall>col_idx < length (padded_lines red_row (Some 3) ! 0).
             cell_rgb unicode_14 (color_map red_row) 0 col_idx = Some (255, 0, 0)"
    by (simp add: red_row_lines red_row_cells[of unicode_14] All_less_Suc numeral_3_eq_3)
  have h5: "length (padded_lines red_row (Some 3) ! 0) = 3" by (simp add: red_row_lines)
  have h6: "cell_rgb unicode_14 (color_map red_row) 0 1 = Some (255, 0, 0)"
    "cell_rgb unicode_14 (color_map red_row) 0 2 = Some (255, 0, 0)"
    using red_row_cells[of unicode_14] by (simp_all add: numeral_2_eq_2)
  show ?thesis
    using h2 h3 h5 h6 red_row_cells(1)[of unicode_14] uniform_row_one_escape_pair[OF h1 h2 h3 h4]
    by blast
qed

subsection \<open>The scenario of the specification\<close>

text \<open>
  C5: the frame with the line AB and a red first cell, in truecolor mode at width 2. The
  code writes the colour-set escape, A, a reset, B, and then a second reset: after the
  uncoloured B the value of \<^verbatim>\<open>prev_color\<close> is the tuple \<^verbatim>\<open>(None, None, None)\<close>, which
  is not \<^verbatim>\<open>None\<close>, so the closing reset of the row is written. In 256 mode the same
  frame ends with B.
\<close>

theorem scenario_truecolor_ends_with_reset:
  "render_frame_with_colors db scenario_frame (Some 2) ''truecolor''
     = [ESC] @ ''[38;2;255;0;0m'' @ ''A'' @ [ESC] @ ''[0m'' @ ''B'' @ [ESC] @ ''[0m''
   \<and> render_frame_with_colors db scenario_frame (Some 2) ''truecolor''
     \<noteq> [ESC] @ ''[38;2;255;0;0m'' @ ''A'' @ [ESC] @ ''[0m'' @ ''B''
   \<and> render_frame_with_colors db scenario_frame (Some 2) ''256''
     = [ESC] @ ''[38;5;196m'' @ ''A'' @ [ESC] @ ''[0m'' @ ''B''"
  by code_simp

subsection \<open>Playing without colour\<close>

text \<open>
  C4: with colour off the player takes the text of a frame from \<^verbatim>\<open>frame_to_text\<close> and
  does not pad it: for the lines A and BCD at canvas width 3 the text is A, newline, BCD.
  The renderer itself, asked for the mode \<^verbatim>\<open>none\<close>, pads the first line to three
  characters and writes no escape.
\<close>

theorem plain_text_is_not_padded:
  "frame_texts db no_color_args env [plain_frame] = [''A'' @ [NL] @ ''BCD'']
   \<and> frame_texts db no_color_args env [plain_frame] \<noteq> [''A  '' @ [NL] @ ''BCD'']
   \<and> render_frame_with_colors db plain_frame (Some 3) ''none'' = ''A  '' @ [NL] @ ''BCD''"
proof -
  have "choose_color_mode no_color_args env = ''none''"
    by (simp add: choose_color_mode_def no_color_args_def)
  moreover have "frame_to_text plain_frame = ''A'' @ [NL] @ ''BCD''"
    by code_simp
  moreover have "render_frame_with_colors db plain_frame (Some 3) ''none'' = ''A  '' @ [NL] @ ''BCD''"
    by code_simp
  ultimately show ?thesis
    by (simp add: frame_texts_def)
qed

section \<open>Properties of the playback\<close>

subsection \<open>The loop\<close>

lemma map_upt_0_Suc: "map f [0..<Suc m] = f 0 # map (\<lambda>j. f (Suc j)) [0..<m]"
proof -
  have "[0..<Suc m] = 0 # map Suc [0..<m]"
    by (simp add: upt_conv_Cons map_Suc_upt del: upt_Suc)
  then show ?thesis by (simp add: comp_def del: upt_Suc)
qed

lemma loop_runs_out:
  assumes "idx < length enc" "\<And>j. w < j \<Longrightarrow> j \<le> w + (length enc - idx) \<Longrightarrow> arrives cancel j = None"
  shows "main_loop False fl enc cancel w idx tr
           = Some (tr @ map (frame_write fl enc) [idx..<length enc], None)"
  using assms
proof (induction "length enc - idx" arbitrary: idx w tr)
  case 0
  then show ?case by simp
next
  case (Suc m)
  have a: "arrives cancel (Suc w) = None" using Suc.prems by simp
  show ?case
  proof (cases "Suc idx \<ge> length enc")
    case True
    with Suc.prems have "[idx..<length enc] = [idx]" by (simp add: upt_conv_Cons)
    with True a show ?thesis
      by (subst main_loop.simps) (simp add: frame_write_def)
  next
    case False
    have ih: "main_loop False fl enc cancel (Suc w) (Suc idx) (tr @ [frame_write fl enc idx])
           = Some ((tr @ [frame_write fl enc idx]) @ map (frame_write fl enc) [Suc idx..<length enc], None)"
      by (rule Suc.hyps(1)) (use Suc.hyps(2) Suc.prems False in auto)
    have "[idx..<length enc] = idx # [Suc idx..<length enc]"
      using Suc.prems(1) by (simp add: upt_conv_Cons)
    with False a ih show ?thesis
      by (subst main_loop.simps) (simp add: frame_write_def)
  qed
qed

lemma loop_cancelled:
  assumes "idx < length enc" "w < k" "lp \<or> k \<le> w + (length enc - idx)"
  shows "main_loop lp fl enc (Some (sig, k)) w idx tr
           = Some (tr @ map (\<lambda>j. frame_write fl enc ((idx + j) mod length enc)) [0..<k - w], Some sig)"
  using assms
proof (induction "k - w" arbitrary: idx w tr)
  case 0
  then show ?case by simp
next
  case (Suc m)
  have kw: "k - w = Suc (k - Suc w)" using Suc.prems by simp
  have here: "(idx + 0) mod length enc = idx" using Suc.prems by simp
  show ?case
  proof (cases "k = Suc w")
    case True
    then show ?thesis
      using here by (subst main_loop.simps) (simp add: arrives_def frame_write_def)
  next
    case False
    then have a: "arrives (Some (sig, k)) (Suc w) = None" by (simp add: arrives_def)
    from False Suc.prems have lt: "Suc w < k" by simp
    show ?thesis
    proof (cases "Suc idx \<ge> length enc")
      case True
      with Suc.prems have n: "Suc idx = length enc" by simp
      with lt Suc.prems have lp: lp by auto
      have ih: "main_loop lp fl enc (Some (sig, k)) (Suc w) 0 (tr @ [frame_write fl enc idx])
          = Some ((tr @ [frame_write fl enc idx])
                @ map (\<lambda>j. frame_write fl enc ((0 + j) mod length enc)) [0..<k - Suc w], Some sig)"
        by (rule Suc.hyps(1)) (use Suc.hyps(2) Suc.prems lt lp in auto)
      have shift: "Suc (idx + j) mod length enc = j mod length enc" for j
      proof -
        have "Suc (idx + j) = length enc + j" using n by simp
        then show ?thesis by (metis mod_add_self1)
      qed
      show ?thesis
        using True a lp ih here
        by (subst main_loop.simps) (simp add: kw map_upt_0_Suc shift frame_write_def del: upt_Suc)
    next
      case False
      have ih: "main_loop lp fl enc (Some (sig, k)) (Suc w) (Suc idx) (tr @ [frame_write fl enc idx])
          = Some ((tr @ [frame_write fl enc idx])
                @ map (\<lambda>j. frame_write fl enc ((Suc idx + j) mod length enc)) [0..<k - Suc w], Some sig)"
        by (rule Suc.hyps(1)) (use Suc.hyps(2) Suc.prems lt False in auto)
      show ?thesis
        using False a ih here
        by (subst main_loop.simps) (simp add: kw map_upt_0_Suc frame_write_def del: upt_Suc)
    qed
  qed
qed

lemma play_normal:
  assumes "frames \<noteq> []" "\<not> loop args"
  shows "play_animation db args env frames None
           = Some (setup_writes args
                   @ map (\<lambda>e. OsWrite (frame_bytes (prefer_flicker args) e)) (encoded_frames db args env frames)
                   @ show_cursor @ disable_alternate_buffer, Returned)"
proof -
  let ?enc = "encoded_frames db args env frames"
  have n: "0 < length ?enc" using assms(1) by (simp add: encoded_frames_def frame_texts_def Let_def)
  have "main_loop False (prefer_flicker args) ?enc None 0 0 (setup_writes args)
          = Some (setup_writes args @ map (frame_write (prefer_flicker args) ?enc) [0..<length ?enc], None)"
    by (rule loop_runs_out) (use n in \<open>simp_all add: arrives_def\<close>)
  moreover have "map (frame_write (prefer_flicker args) ?enc) [0..<length ?enc]
          = map (\<lambda>e. OsWrite (frame_bytes (prefer_flicker args) e)) ?enc"
    by (rule nth_equalityI) (simp_all add: frame_write_def)
  ultimately show ?thesis
    using assms by (simp add: play_animation_def Let_def arrives_def finish_def setup_writes_def)
qed

lemma play_cancelled:
  assumes "frames \<noteq> []" "loop args \<or> k \<le> length frames"
  shows "play_animation db args env frames (Some (sig, k))
           = Some (finish (setup_writes args
                     @ map (\<lambda>j. frame_write (prefer_flicker args) (encoded_frames db args env frames)
                                  (j mod length frames)) [0..<k], Some sig))"
proof (cases "k = 0")
  case True
  then show ?thesis
    using assms(1) by (simp add: play_animation_def Let_def arrives_def setup_writes_def)
next
  case False
  let ?enc = "encoded_frames db args env frames"
  have n: "length ?enc = length frames" by (simp add: encoded_frames_def frame_texts_def Let_def)
  have "main_loop (loop args) (prefer_flicker args) ?enc (Some (sig, k)) 0 0 (setup_writes args)
          = Some (setup_writes args
                  @ map (\<lambda>j. frame_write (prefer_flicker args) ?enc ((0 + j) mod length ?enc)) [0..<k - 0], Some sig)"
    by (rule loop_cancelled) (use False assms n in auto)
  then show ?thesis
    using assms(1) False n by (simp add: play_animation_def Let_def arrives_def setup_writes_def)
qed

text \<open>A looping session that no signal ends writes frames for ever: it has no result.\<close>

lemma loop_some_not_forever:
  assumes "main_loop lp fl enc cancel w idx tr = Some r"
  shows "\<not> (lp \<and> cancel = None)"
  by (rule main_loop.raw_induct
        [where P = "\<lambda>lp fl enc cancel w idx tr r. \<not> (lp \<and> cancel = None)", OF _ assms])
     (auto simp: Let_def arrives_def split: option.splits if_splits, blast+)

lemma loop_forever: "main_loop True fl enc None w idx tr = None"
  using loop_some_not_forever[of True fl enc None w idx tr]
  by (cases "main_loop True fl enc None w idx tr") auto

lemma play_forever:
  assumes "frames \<noteq> []" "loop args"
  shows "play_animation db args env frames None = None"
  using assms by (simp add: play_animation_def Let_def arrives_def loop_forever)

subsection \<open>Reading a trace\<close>

lemma count_frame_writes:
  "count_list (map (\<lambda>j. frame_write fl enc (f j)) js) (StdoutWrite x) = 0"
  by (induction js) (simp_all add: frame_write_def)

lemma count_os_writes:
  "count_list (map (\<lambda>e. OsWrite (g e)) es) (StdoutWrite x) = 0"
  by (induction es) simp_all

lemma setup_counts:
  "cursor_shows (setup_writes args) = 0" "alt_exits (setup_writes args) = 0"
  by (simp_all add: cursor_shows_def alt_exits_def setup_writes_def hide_cursor_def
      enable_alternate_buffer_def clear_screen_def ESC_def)

lemma frame_writes_append: "frame_writes (xs @ ys) = frame_writes xs @ frame_writes ys"
  by (simp add: frame_writes_def)

lemma frame_writes_fixed:
  "frame_writes (setup_writes args) = []" "frame_writes show_cursor = []"
  "frame_writes disable_alternate_buffer = []"
  by (auto simp: frame_writes_def setup_writes_def hide_cursor_def show_cursor_def
      enable_alternate_buffer_def clear_screen_def disable_alternate_buffer_def)

lemma frame_writes_deliver: "frame_writes (fst (deliver sig)) = []"
  by (cases sig) (simp_all add: frame_writes_def show_cursor_def)

lemma frame_writes_map: "frame_writes (map (\<lambda>j. frame_write fl enc (f j)) js)
    = map (\<lambda>j. frame_bytes fl (enc ! f j)) js"
  by (induction js) (simp_all add: frame_writes_def frame_write_def)

lemma finish_trace:
  "fst (finish (tr, Some sig)) = tr @ fst (deliver sig) @ show_cursor @ disable_alternate_buffer"
  by (cases sig) (simp_all add: finish_def)

lemma finish_signal:
  "finish (tr, Some SIGINT) = (tr @ show_cursor @ disable_alternate_buffer, Returned)"
  "finish (tr, Some SIGTERM)
     = (tr @ show_cursor @ show_cursor @ disable_alternate_buffer, Raised (SystemExit 0))"
  by (simp_all add: finish_def)

lemma restore_shape:
  "restored_last (tr @ show_cursor @ disable_alternate_buffer)"
  by (simp add: restored_last_def show_cursor_def disable_alternate_buffer_def)

lemma restore_shape2:
  "restored_last (a @ b @ show_cursor @ disable_alternate_buffer)"
  "restored_last (a @ b @ c @ show_cursor @ disable_alternate_buffer)"
  using restore_shape[of "a @ b"] restore_shape[of "a @ b @ c"] by simp_all

lemma counts_append:
  "cursor_shows (xs @ ys) = cursor_shows xs + cursor_shows ys"
  "alt_exits (xs @ ys) = alt_exits xs + alt_exits ys"
  by (simp_all add: cursor_shows_def alt_exits_def count_list_append)

lemma counts_writes:
  "cursor_shows (map (\<lambda>j. frame_write fl enc (f j)) js) = 0"
  "alt_exits (map (\<lambda>j. frame_write fl enc (f j)) js) = 0"
  "cursor_shows (map (\<lambda>e. OsWrite (g e)) es) = 0"
  "alt_exits (map (\<lambda>e. OsWrite (g e)) es) = 0"
  by (simp_all add: cursor_shows_def alt_exits_def count_frame_writes count_os_writes)

lemma counts_fixed:
  "cursor_shows show_cursor = 1" "alt_exits show_cursor = 0"
  "cursor_shows disable_alternate_buffer = 0" "alt_exits disable_alternate_buffer = 1"
  by (simp_all add: cursor_shows_def alt_exits_def show_cursor_def disable_alternate_buffer_def ESC_def)

lemmas count_simps = counts_append counts_writes counts_fixed setup_counts

subsection \<open>Sample sessions\<close>

lemma plain_encoded:
  "encoded_frames db no_color_args plain_terminal [plain_frame] = [''A'' @ [NL] @ ''BCD'']"
  by code_simp

lemma no_color_flags: "\<not> loop no_color_args" "\<not> prefer_flicker no_color_args"
  by (simp_all add: no_color_args_def)

lemma three_encoded:
  "encoded_frames db no_color_args plain_terminal three_frames = [''A'' @ [NL] @ ''BCD'', ''AB'', ''AB'']"
  "encoded_frames db looping_args plain_terminal three_frames = [''A'' @ [NL] @ ''BCD'', ''AB'', ''AB'']"
  by code_simp+

lemma looping_flags: "loop looping_args" "prefer_flicker looping_args"
  by (simp_all add: looping_args_def)

lemma three_nonempty: "three_frames \<noteq> []" "length three_frames = 3"
  by (simp_all add: three_frames_def)

lemma upt_0_4: "[0..<4] = [0, 1, 2, 3]"
  by code_simp

subsection \<open>The empty frame list\<close>

text \<open>
  C7: for the empty frame list the session prints its report and returns, whatever the
  arguments, the terminal and a pending signal are: no frame is written and none of the
  cursor, alternate-buffer or clear sequences is.
\<close>

theorem empty_frame_list_touches_nothing:
  "play_animation db args env [] cancel = Some ([Print ''No frames found in animation.''], Returned)"
  by (simp add: play_animation_def)

subsection \<open>Frame writes\<close>

text \<open>
  C8: a session over \<open>n > 0\<close> frames without \<^verbatim>\<open>loop\<close> and without a signal returns, and
  its trace is the setup, one write per frame in order (\<open>n\<close> writes), and the
  restoration. With \<^verbatim>\<open>loop\<close>, a session that a signal ends after \<open>k\<close> writes has written
  the frames of index \<open>j mod n\<close> for \<open>j < k\<close>: after frame \<open>n - 1\<close> comes frame 0.
\<close>

theorem frames_written_once_in_order:
  assumes "frames \<noteq> []"
  shows "(\<not> loop args \<longrightarrow>
           play_animation db args env frames None
             = Some (setup_writes args
                     @ map (\<lambda>e. OsWrite (frame_bytes (prefer_flicker args) e))
                         (encoded_frames db args env frames)
                     @ show_cursor @ disable_alternate_buffer, Returned)
           \<and> length (encoded_frames db args env frames) = length frames)
       \<and> (loop args \<longrightarrow>
           map_option (\<lambda>r. frame_writes (fst r)) (play_animation db args env frames (Some (sig, k)))
             = Some (map (\<lambda>j. frame_bytes (prefer_flicker args)
                                 (encoded_frames db args env frames ! (j mod length frames))) [0..<k]))"
proof -
  have n: "length (encoded_frames db args env frames) = length frames"
    by (simp add: encoded_frames_def frame_texts_def Let_def)
  show ?thesis
    using play_normal[OF assms, where args = args and env = env and db = db]
      play_cancelled[OF assms, where args = args and k = k and env = env and sig = sig and db = db] n
    by (simp add: finish_trace frame_writes_append frame_writes_fixed frame_writes_deliver frame_writes_map)
qed

theorem frames_written_once_in_order_witness:
  "three_frames \<noteq> [] \<and> \<not> loop no_color_args \<and> loop looping_args
   \<and> play_animation unicode_14 no_color_args plain_terminal three_frames None
       = Some (hide_cursor @ enable_alternate_buffer @ clear_screen
               @ [OsWrite (ESC # ''[H'' @ ''A'' @ [NL] @ ''BCD''),
                  OsWrite (ESC # ''[H'' @ ''AB''),
                  OsWrite (ESC # ''[H'' @ ''AB'')]
               @ show_cursor @ disable_alternate_buffer, Returned)
   \<and> map_option (\<lambda>r. frame_writes (fst r))
         (play_animation unicode_14 looping_args plain_terminal three_frames (Some (SIGINT, 4)))
       = Some [ESC # ''[2J'' @ ESC # ''[H'' @ ''A'' @ [NL] @ ''BCD'',
               ESC # ''[2J'' @ ESC # ''[H'' @ ''AB'',
               ESC # ''[2J'' @ ESC # ''[H'' @ ''AB'',
               ESC # ''[2J'' @ ESC # ''[H'' @ ''A'' @ [NL] @ ''BCD'']"
  using frames_written_once_in_order
      [OF three_nonempty(1), where args = no_color_args and env = plain_terminal and db = unicode_14]
    frames_written_once_in_order
      [OF three_nonempty(1), where args = looping_args and env = plain_terminal and sig = SIGINT
         and k = 4 and db = unicode_14]
  by (simp add: three_encoded[of unicode_14] three_nonempty no_color_flags looping_flags setup_writes_def
      frame_bytes_def upt_0_4)

subsection \<open>Restoring the terminal\<close>

text \<open>
  C1, as the code has it: a session over a non-empty frame list that ends after its last
  frame, or by SIGINT inside the loop, returns with the cursor-show sequence written
  exactly once; ended by SIGTERM inside the loop it leaves with \<^verbatim>\<open>SystemExit(0)\<close> and the
  cursor-show sequence written twice, by the handler and by the \<^verbatim>\<open>finally\<close> clause. On
  each of the three paths the alternate-buffer-exit is written exactly once when the
  alternate buffer was entered, and the trace ends with the restoration.
\<close>

theorem restoration_on_every_exit:
  assumes "frames \<noteq> []"
  shows "(\<not> loop args \<longrightarrow>
           (\<exists>tr. play_animation db args env frames None = Some (tr, Returned)
              \<and> cursor_shows tr = 1 \<and> (\<not> prefer_flicker args \<longrightarrow> alt_exits tr = 1)
              \<and> restored_last tr))
       \<and> (loop args \<or> k \<le> length frames \<longrightarrow>
           (\<exists>tr. play_animation db args env frames (Some (SIGINT, k)) = Some (tr, Returned)
              \<and> cursor_shows tr = 1 \<and> (\<not> prefer_flicker args \<longrightarrow> alt_exits tr = 1)
              \<and> restored_last tr))
       \<and> (loop args \<or> k \<le> length frames \<longrightarrow>
           (\<exists>tr. play_animation db args env frames (Some (SIGTERM, k)) = Some (tr, Raised (SystemExit 0))
              \<and> cursor_shows tr = 2 \<and> (\<not> prefer_flicker args \<longrightarrow> alt_exits tr = 1)
              \<and> restored_last tr))"
proof (intro conjI impI)
  assume "\<not> loop args"
  from play_normal[OF assms this, where env = env and db = db]
  show "\<exists>tr. play_animation db args env frames None = Some (tr, Returned)
              \<and> cursor_shows tr = 1 \<and> (\<not> prefer_flicker args \<longrightarrow> alt_exits tr = 1)
              \<and> restored_last tr"
    by (simp add: count_simps restore_shape2)
next
  assume c: "loop args \<or> k \<le> length frames"
  from play_cancelled[OF assms c, where env = env and sig = SIGINT and db = db]
  show "\<exists>tr. play_animation db args env frames (Some (SIGINT, k)) = Some (tr, Returned)
              \<and> cursor_shows tr = 1 \<and> (\<not> prefer_flicker args \<longrightarrow> alt_exits tr = 1)
              \<and> restored_last tr"
    by (simp add: finish_signal count_simps restore_shape2)
next
  assume c: "loop args \<or> k \<le> length frames"
  from play_cancelled[OF assms c, where env = env and sig = SIGTERM and db = db]
  show "\<exists>tr. play_animation db args env frames (Some (SIGTERM, k)) = Some (tr, Raised (SystemExit 0))
              \<and> cursor_shows tr = 2 \<and> (\<not> prefer_flicker args \<longrightarrow> alt_exits tr = 1)
              \<and> restored_last tr"
    by (simp add: finish_signal count_simps restore_shape2)
qed

theorem restoration_on_every_exit_witness:
  "[plain_frame] \<noteq> [] \<and> \<not> loop no_color_args \<and> (1::nat) \<le> length [plain_frame]
   \<and> (\<exists>tr. play_animation unicode_14 no_color_args plain_terminal [plain_frame] None = Some (tr, Returned)
          \<and> cursor_shows tr = 1 \<and> alt_exits tr = 1 \<and> restored_last tr)
   \<and> (\<exists>tr. play_animation unicode_14 no_color_args plain_terminal [plain_frame] (Some (SIGINT, 1))
             = Some (tr, Returned)
          \<and> cursor_shows tr = 1 \<and> alt_exits tr = 1 \<and> restored_last tr)
   \<and> (\<exists>tr. play_animation unicode_14 no_color_args plain_terminal [plain_frame] (Some (SIGTERM, 1))
             = Some (tr, Raised (SystemExit 0))
          \<and> cursor_shows tr = 2 \<and> alt_exits tr = 1 \<and> restored_last tr)"
proof -
  have h: "[plain_frame] \<noteq> []" "(1::nat) \<le> length [plain_frame]" by simp_all
  show ?thesis
    using h no_color_flags
      restoration_on_every_exit
        [OF h(1), where args = no_color_args and env = plain_terminal and k = 1
           and db = unicode_14]
    by blast
qed

text \<open>
  On SIGTERM the restoration is not written exactly once: the session of one frame that
  SIGTERM ends after the first write shows the cursor twice.
\<close>

theorem sigterm_shows_cursor_twice:
  "play_animation unicode_14 no_color_args plain_terminal [plain_frame] (Some (SIGTERM, 1))
     = Some (hide_cursor @ enable_alternate_buffer @ clear_screen
             @ [OsWrite (ESC # ''[H'' @ ''A'' @ [NL] @ ''BCD'')]
             @ show_cursor @ show_cursor @ disable_alternate_buffer, Raised (SystemExit 0))
   \<and> cursor_shows (hide_cursor @ enable_alternate_buffer @ clear_screen
             @ [OsWrite (ESC # ''[H'' @ ''A'' @ [NL] @ ''BCD'')]
             @ show_cursor @ show_cursor @ disable_alternate_buffer) = 2"
proof -
  have "[plain_frame] \<noteq> []" "loop no_color_args \<or> 1 \<le> length [plain_frame]" by simp_all
  from play_cancelled[OF this, where env = plain_terminal and sig = SIGTERM and db = unicode_14]
  have "play_animation unicode_14 no_color_args plain_terminal [plain_frame] (Some (SIGTERM, 1))
     = Some (hide_cursor @ enable_alternate_buffer @ clear_screen
             @ [OsWrite (ESC # ''[H'' @ ''A'' @ [NL] @ ''BCD'')]
             @ show_cursor @ show_cursor @ disable_alternate_buffer, Raised (SystemExit 0))"
    by (simp add: plain_encoded[of unicode_14] finish_signal setup_writes_def frame_write_def frame_bytes_def
        no_color_flags)
  moreover have "cursor_shows (hide_cursor @ enable_alternate_buffer @ clear_screen
             @ [OsWrite (ESC # ''[H'' @ ''A'' @ [NL] @ ''BCD'')]
             @ show_cursor @ show_cursor @ disable_alternate_buffer) = 2"
    by (simp add: cursor_shows_def hide_cursor_def enable_alternate_buffer_def clear_screen_def
        show_cursor_def disable_alternate_buffer_def ESC_def)
  ultimately show ?thesis by blast
qed

end
